theory Spec2Isabelle
  imports Complex_Main "HOL-Library.Word" "HOL-Library.Signed_Division"
begin

section \<open>Data model of verify.go\<close>

text \<open>
  The program talks to four outside parties: the cluster API (in-cluster configuration,
  client set, service listing), the network (\<^verbatim>\<open>tls.DialWithDialer\<close>), the clock
  (\<^verbatim>\<open>time.Now\<close>, \<^verbatim>\<open>time.Sleep\<close>) and the regular-expression library. Their answers are
  not decided by the program, so they are functions of an explicit world state \<open>'w\<close>,
  collected in the record \<open>env\<close>. The three Prometheus collectors are package-level
  variables; they are fields of the program state, which is passed explicitly.
  Calls of the logger are not modelled (\<^verbatim>\<open>certsExpiryDates\<close> only feeds a log line).
  \<^verbatim>\<open>discoverServices\<close> runs in a goroutine of its own; a panic there ends the process, so
  a panic is the end of a run.
\<close>

text \<open>\<^verbatim>\<open>x509.Certificate\<close>, the fields read by \<^verbatim>\<open>testTLS\<close>. A \<^verbatim>\<open>time.Time\<close> is the
  number of nanoseconds since the Unix epoch.\<close>

record certificate =
  NotAfter :: int
  Issuer_CommonName :: string
  Issuer_SerialNumber :: string

text \<open>\<^verbatim>\<open>*tls.Conn\<close> as returned by a successful dial: what \<^verbatim>\<open>conn.Write\<close> will answer
  (\<open>None\<close> is a nil error) and \<^verbatim>\<open>conn.ConnectionState().PeerCertificates\<close>.\<close>

record conn =
  writeErr :: "string option"
  PeerCertificates :: "certificate list"

text \<open>\<^verbatim>\<open>v1.Service\<close>: name, namespace and the \<^verbatim>\<open>Port\<close> (an int32) of every entry of
  \<^verbatim>\<open>Spec.Ports\<close>.\<close>

record service =
  Name :: string
  Namespace :: string
  Ports :: "32 word list"

text \<open>Every call that leaves the program, with its arguments and (where it has one) its
  answer, in the order the calls are made.\<close>

datatype event =
    EvDial int string "string + conn"
  | EvWrite string "string option"
  | EvClose
  | EvNow int
  | EvGaugeSet "string list" real
  | EvDiscoveredSet real
  | EvHeartbeatInc
  | EvList "string + service list"
  | EvSleep int

text \<open>What a panic carries: the message of \<^verbatim>\<open>panic(err.Error())\<close>, or the error with which
  \<^verbatim>\<open>WithLabelValues\<close> panics (a wrong number of label values, or the first label value
  that is not valid UTF-8).\<close>

datatype panic =
    PanicMessage string
  | InconsistentCardinality
  | InvalidLabelValue string

record 'w state =
  world :: 'w
  expiredCertsGauge :: "string list \<rightharpoonup> real"
  discoveredCertsGauge :: real
  hearthbeatCounter :: nat
  trace :: "event list"

record ('w, 'cfg, 'cs, 're) env =
  rest_InClusterConfig :: "'w \<Rightarrow> (string + 'cfg) \<times> 'w"
  kubernetes_NewForConfig :: "'cfg \<Rightarrow> string + 'cs"
  regexp_Compile :: "string \<Rightarrow> string + 're"
  regexp_Match :: "'re \<Rightarrow> string \<Rightarrow> bool"
  services_List :: "'cs \<Rightarrow> 'w \<Rightarrow> (string + service list) \<times> 'w"
  tls_DialWithDialer :: "int \<Rightarrow> string \<Rightarrow> 'w \<Rightarrow> (string + conn) \<times> 'w"
  time_Now :: "'w \<Rightarrow> int \<times> 'w"
  time_Sleep :: "int \<Rightarrow> 'w \<Rightarrow> 'w"

section \<open>Library functions used by testTLS\<close>

text \<open>\<^verbatim>\<open>strconv.Itoa\<close> and the verb \<^verbatim>\<open>%d\<close>: decimal digits, a minus sign for a negative
  number.\<close>

definition digit :: "nat \<Rightarrow> char" where
  "digit n = ''0123456789'' ! n"

fun itoa_nat :: "nat \<Rightarrow> string" where
  "itoa_nat n = (if n < 10 then [digit n] else itoa_nat (n div 10) @ [digit (n mod 10)])"

declare itoa_nat.simps [simp del]

definition Itoa :: "int \<Rightarrow> string" where
  "Itoa i = (if i < 0 then CHR ''-'' # itoa_nat (nat (- i)) else itoa_nat (nat i))"

text \<open>The number a string of decimal digits stands for.\<close>

definition digit_value :: "char \<Rightarrow> nat" where
  "digit_value c = of_char c - 48"

definition decimal_value :: "string \<Rightarrow> nat" where
  "decimal_value cs = foldl (\<lambda>a c. 10 * a + digit_value c) 0 cs"

text \<open>A \<^verbatim>\<open>time.Duration\<close> is an int64 count of nanoseconds. By its documentation,
  \<^verbatim>\<open>t.Sub(u)\<close> is the duration \<open>t - u\<close>, and the maximum (or minimum) duration when the
  result exceeds what a \<^verbatim>\<open>Duration\<close> can store.\<close>

definition maxDuration :: int where
  "maxDuration = 2 ^ 63 - 1"

definition minDuration :: int where
  "minDuration = - (2 ^ 63)"

definition Time_Sub :: "int \<Rightarrow> int \<Rightarrow> int" where
  "Time_Sub t u =
     (let d = t - u
      in if minDuration \<le> d \<and> d \<le> maxDuration then d
         else if t < u then minDuration
         else maxDuration)"

section \<open>float64\<close>

text \<open>
  A float64 is the real number it stands for. \<open>round64 x\<close> is the float64 nearest to \<open>x\<close>,
  ties to the even significand, as every conversion to float64 and every float64
  operation of Go rounds: with \<open>2 ^ e \<le> \<bar>x\<bar> < 2 ^ (e + 1)\<close> the float64s around \<open>x\<close> are
  the multiples of \<open>2 ^ (e - 52)\<close>, and of \<open>2 ^ (- 1074)\<close> below \<open>2 ^ (- 1022)\<close>. Overflow
  to infinity (from \<open>2 ^ 1024\<close> on) is not modelled; no number rounded here comes near
  it.
\<close>

text \<open>The number of binary digits of \<open>n\<close>.\<close>

fun bits :: "nat \<Rightarrow> nat" where
  "bits n = (if n = 0 then 0 else Suc (bits (n div 2)))"

declare bits.simps [simp del]

definition pow2 :: "int \<Rightarrow> real" where
  "pow2 e = (if 0 \<le> e then 2 ^ nat e else 1 / 2 ^ nat (- e))"

text \<open>For \<open>0 < a\<close>, the \<open>e\<close> with \<open>2 ^ e \<le> a < 2 ^ (e + 1)\<close>.\<close>

definition exponent2 :: "real \<Rightarrow> int" where
  "exponent2 a =
     (if 1 \<le> a then int (bits (nat \<lfloor>a\<rfloor>)) - 1
      else - int (bits (nat (\<lceil>1 / a\<rceil> - 1))))"

text \<open>The nearest integer, the even one of two equally near.\<close>

definition round_even :: "real \<Rightarrow> int" where
  "round_even y =
     (let n = \<lfloor>y\<rfloor>; r = y - real_of_int n
      in if r < 1 / 2 then n
         else if 1 / 2 < r then n + 1
         else if even n then n
         else n + 1)"

definition round64 :: "real \<Rightarrow> real" where
  "round64 x =
     (if x = 0 then 0
      else (let a = \<bar>x\<bar>;
                e = max (exponent2 a) (- 1022);
                u = pow2 (e - 52)
            in sgn x * (real_of_int (round_even (a / u)) * u)))"

text \<open>\<^verbatim>\<open>Duration.Seconds\<close>: \<^verbatim>\<open>sec := d / Second; nsec := d % Second\<close>, by Go's truncating
  division, and \<^verbatim>\<open>float64(sec) + float64(nsec)/1e9\<close>: two conversions, a division and an
  addition, each rounded to float64.\<close>

definition Second :: int where
  "Second = 1000000000"

definition Duration_Seconds :: "int \<Rightarrow> real" where
  "Duration_Seconds d =
     (let sec = d sdiv Second; nsec = d smod Second
      in round64 (round64 (real_of_int sec) +
                  round64 (round64 (real_of_int nsec) / 1000000000)))"

section \<open>Label values\<close>

text \<open>
  \<^verbatim>\<open>utf8.ValidString\<close> on the bytes of a string: ASCII bytes, and the two-, three- and
  four-byte sequences of UTF-8 without overlong forms, surrogates and code points beyond
  U+10FFFF.
\<close>

definition cont :: "nat \<Rightarrow> bool" where
  "cont b = (0x80 \<le> b \<and> b \<le> 0xBF)"

definition second3 :: "nat \<Rightarrow> nat \<Rightarrow> bool" where
  "second3 a b =
     (if a = 0xE0 then 0xA0 \<le> b \<and> b \<le> 0xBF
      else if a = 0xED then 0x80 \<le> b \<and> b \<le> 0x9F
      else cont b)"

definition second4 :: "nat \<Rightarrow> nat \<Rightarrow> bool" where
  "second4 a b =
     (if a = 0xF0 then 0x90 \<le> b \<and> b \<le> 0xBF
      else if a = 0xF4 then 0x80 \<le> b \<and> b \<le> 0x8F
      else cont b)"

fun utf8_valid :: "nat list \<Rightarrow> bool" where
  "utf8_valid [] = True"
| "utf8_valid (a # bs) =
     (if a < 0x80 then utf8_valid bs
      else if 0xC2 \<le> a \<and> a \<le> 0xDF then
        (case bs of b # r \<Rightarrow> cont b \<and> utf8_valid r | _ \<Rightarrow> False)
      else if 0xE0 \<le> a \<and> a \<le> 0xEF then
        (case bs of b # c # r \<Rightarrow> second3 a b \<and> cont c \<and> utf8_valid r | _ \<Rightarrow> False)
      else if 0xF0 \<le> a \<and> a \<le> 0xF4 then
        (case bs of
           b # c # d # r \<Rightarrow> second4 a b \<and> cont c \<and> cont d \<and> utf8_valid r
         | _ \<Rightarrow> False)
      else False)"

definition ValidString :: "string \<Rightarrow> bool" where
  "ValidString s = utf8_valid (map of_char s)"

text \<open>The label names of \<^verbatim>\<open>expiredCertsGauge\<close>, and \<^verbatim>\<open>WithLabelValues\<close>: the series of the
  label values, or the panic when their number is not the number of label names or one
  of them is not valid UTF-8.\<close>

definition labelNames :: "string list" where
  "labelNames = [''namespace'', ''service'', ''port'', ''issuer'', ''serialnumber'']"

definition WithLabelValues :: "string list \<Rightarrow> panic + string list" where
  "WithLabelValues lvs =
     (if length lvs \<noteq> length labelNames then Inl InconsistentCardinality
      else case find (\<lambda>v. \<not> ValidString v) lvs of
             Some v \<Rightarrow> Inl (InvalidLabelValue v)
           | None \<Rightarrow> Inr lvs)"

section \<open>testTLS\<close>

definition fullhostname :: "string \<Rightarrow> string \<Rightarrow> 32 word \<Rightarrow> string" where
  "fullhostname svc namespace port =
     svc @ ''.'' @ namespace @ ''.svc.cluster.local:'' @ Itoa (sint port)"

definition labelValues :: "string \<Rightarrow> string \<Rightarrow> 32 word \<Rightarrow> certificate \<Rightarrow> string list" where
  "labelValues namespace svc port cert =
     [namespace, svc, Itoa (sint port), Issuer_CommonName cert, Issuer_SerialNumber cert]"

text \<open>The body of \<^verbatim>\<open>for _, cert := range certs\<close>: count the certificate, read the clock,
  get the series of the certificate's label values, which may panic, and set it to the
  seconds left.\<close>

fun certLoop ::
  "('w, 'cfg, 'cs, 're) env \<Rightarrow> string \<Rightarrow> string \<Rightarrow> 32 word \<Rightarrow> certificate list \<Rightarrow>
   int \<times> 'w state \<Rightarrow> (panic \<times> 'w state) + (int \<times> 'w state)" where
  "certLoop env namespace svc port [] (discoveredTLScerts, s) = Inr (discoveredTLScerts, s)"
| "certLoop env namespace svc port (cert # certs) (discoveredTLScerts, s) =
     (let (now, w) = time_Now env (world s);
          timeToExpiration = Time_Sub (NotAfter cert) now;
          s1 = s\<lparr>world := w, trace := trace s @ [EvNow now]\<rparr>
      in case WithLabelValues (labelValues namespace svc port cert) of
           Inl p \<Rightarrow> Inl (p, s1)
         | Inr lvs \<Rightarrow>
             (let v = Duration_Seconds timeToExpiration
              in certLoop env namespace svc port certs
                   (discoveredTLScerts + 1,
                    s1\<lparr>expiredCertsGauge := (expiredCertsGauge s1)(lvs \<mapsto> v),
                       trace := trace s1 @ [EvGaugeSet lvs v]\<rparr>)))"

definition ping :: string where
  "ping = ''ping'' @ [CHR 0x0A]"

definition conn_Close :: "'w state \<Rightarrow> 'w state" where
  "conn_Close s = s\<lparr>trace := trace s @ [EvClose]\<rparr>"

text \<open>The deferred \<^verbatim>\<open>conn.Close()\<close> runs on both returns after the dial and when the loop
  panics.\<close>

definition testTLS ::
  "('w, 'cfg, 'cs, 're) env \<Rightarrow> int \<Rightarrow> string \<Rightarrow> string \<Rightarrow> 32 word \<Rightarrow> 'w state \<Rightarrow>
   (panic \<times> 'w state) + (bool \<times> int \<times> 'w state)" where
  "testTLS env tlsTimeout svc namespace port s =
     (let addr = fullhostname svc namespace port;
          (res, w) = tls_DialWithDialer env tlsTimeout addr (world s);
          s1 = s\<lparr>world := w, trace := trace s @ [EvDial tlsTimeout addr res]\<rparr>
      in case res of
           Inl err \<Rightarrow> Inr (False, 0, s1)
         | Inr c \<Rightarrow>
             (let s2 = s1\<lparr>trace := trace s1 @ [EvWrite ping (writeErr c)]\<rparr>
              in case writeErr c of
                   Some err \<Rightarrow> Inr (False, 0, conn_Close s2)
                 | None \<Rightarrow>
                     (case certLoop env namespace svc port (PeerCertificates c) (0, s2) of
                        Inl (p, s3) \<Rightarrow> Inl (p, conn_Close s3)
                      | Inr (discoveredTLScerts, s3) \<Rightarrow>
                          Inr (True, discoveredTLScerts, conn_Close s3))))"

section \<open>discoverServices\<close>

text \<open>The test of line 112, \<^verbatim>\<open>skipNamespaceRegex != "" && r.Match([]byte(ns))\<close>. The
  \<^verbatim>\<open>*regexp.Regexp\<close> \<open>r\<close> is \<open>None\<close> when it is nil; the loop is only entered with a nil
  \<open>r\<close> when the pattern is empty, and then \<open>r\<close> is not looked at.\<close>

definition shouldSkip ::
  "('w, 'cfg, 'cs, 're) env \<Rightarrow> string \<Rightarrow> 're option \<Rightarrow> string \<Rightarrow> bool" where
  "shouldSkip env skipNamespaceRegex r ns =
     (skipNamespaceRegex \<noteq> [] \<and>
      (case r of Some re \<Rightarrow> regexp_Match env re ns | None \<Rightarrow> False))"

text \<open>\<^verbatim>\<open>for _, port := range ports\<close>\<close>

fun portLoop ::
  "('w, 'cfg, 'cs, 're) env \<Rightarrow> int \<Rightarrow> string \<Rightarrow> string \<Rightarrow> 32 word list \<Rightarrow>
   int \<times> 'w state \<Rightarrow> (panic \<times> 'w state) + (int \<times> 'w state)" where
  "portLoop env tlsTimeout svcName ns [] (discoveredTLScertificates, s) =
     Inr (discoveredTLScertificates, s)"
| "portLoop env tlsTimeout svcName ns (port # ports) (discoveredTLScertificates, s) =
     (case testTLS env tlsTimeout svcName ns port s of
        Inl p \<Rightarrow> Inl p
      | Inr (ok, certsNum, s') \<Rightarrow>
          portLoop env tlsTimeout svcName ns ports
            (if ok then discoveredTLScertificates + certsNum else discoveredTLScertificates,
             s'))"

text \<open>\<^verbatim>\<open>for _, svc := range services.Items\<close>\<close>

fun svcLoop ::
  "('w, 'cfg, 'cs, 're) env \<Rightarrow> int \<Rightarrow> string \<Rightarrow> 're option \<Rightarrow> service list \<Rightarrow>
   int \<times> 'w state \<Rightarrow> (panic \<times> 'w state) + (int \<times> 'w state)" where
  "svcLoop env tlsTimeout skipNamespaceRegex r [] (discoveredTLScertificates, s) =
     Inr (discoveredTLScertificates, s)"
| "svcLoop env tlsTimeout skipNamespaceRegex r (svc # items) (discoveredTLScertificates, s) =
     (let ports = Ports svc; ns = Namespace svc; svcName = Name svc
      in if shouldSkip env skipNamespaceRegex r ns
         then svcLoop env tlsTimeout skipNamespaceRegex r items (discoveredTLScertificates, s)
         else case portLoop env tlsTimeout svcName ns ports (discoveredTLScertificates, s) of
                Inl p \<Rightarrow> Inl p
              | Inr ds \<Rightarrow> svcLoop env tlsTimeout skipNamespaceRegex r items ds)"

text \<open>One pass of the body of \<^verbatim>\<open>for { ... }\<close>. A panic is \<open>Inl\<close> of what it carries and the
  state in which it was raised.\<close>

definition scanCycle ::
  "('w, 'cfg, 'cs, 're) env \<Rightarrow> 'cs \<Rightarrow> int \<Rightarrow> int \<Rightarrow> string \<Rightarrow> 're option \<Rightarrow> 'w state \<Rightarrow>
   (panic \<times> 'w state) + 'w state" where
  "scanCycle env clientset discoverFrequency tlsTimeout skipNamespaceRegex r s =
     (let (res, w) = services_List env clientset (world s);
          s1 = s\<lparr>world := w, trace := trace s @ [EvList res]\<rparr>
      in case res of
           Inl err \<Rightarrow> Inl (PanicMessage err, s1)
         | Inr items \<Rightarrow>
             (case svcLoop env tlsTimeout skipNamespaceRegex r items (0, s1) of
                Inl p \<Rightarrow> Inl p
              | Inr (discoveredTLScertificates, s2) \<Rightarrow>
                  (let v = real_of_int discoveredTLScertificates;
                       s3 = s2\<lparr>discoveredCertsGauge := v,
                               trace := trace s2 @ [EvDiscoveredSet v]\<rparr>;
                       s4 = s3\<lparr>hearthbeatCounter := hearthbeatCounter s3 + 1,
                               trace := trace s3 @ [EvHeartbeatInc]\<rparr>;
                       s5 = s4\<lparr>world := time_Sleep env discoverFrequency (world s4),
                               trace := trace s4 @ [EvSleep discoverFrequency]\<rparr>
                   in Inr s5)))"

text \<open>The loop never ends by itself. \<open>scanLoop\<close> runs at most \<open>cycles\<close> passes: \<open>Inr\<close> is the
  state after that many completed passes (the loop goes on), \<open>Inl\<close> a panic.\<close>

fun scanLoop ::
  "('w, 'cfg, 'cs, 're) env \<Rightarrow> 'cs \<Rightarrow> int \<Rightarrow> int \<Rightarrow> string \<Rightarrow> 're option \<Rightarrow> nat \<Rightarrow>
   'w state \<Rightarrow> (panic \<times> 'w state) + 'w state" where
  "scanLoop env clientset discoverFrequency tlsTimeout skipNamespaceRegex r 0 s = Inr s"
| "scanLoop env clientset discoverFrequency tlsTimeout skipNamespaceRegex r (Suc cycles) s =
     (case scanCycle env clientset discoverFrequency tlsTimeout skipNamespaceRegex r s of
        Inl p \<Rightarrow> Inl p
      | Inr s' \<Rightarrow>
          scanLoop env clientset discoverFrequency tlsTimeout skipNamespaceRegex r cycles s')"

definition discoverServices ::
  "('w, 'cfg, 'cs, 're) env \<Rightarrow> int \<Rightarrow> int \<Rightarrow> string \<Rightarrow> nat \<Rightarrow> 'w state \<Rightarrow>
   (panic \<times> 'w state) + 'w state" where
  "discoverServices env discoverFrequency tlsTimeout skipNamespaceRegex cycles s =
     (let (cfg, w) = rest_InClusterConfig env (world s);
          s1 = s\<lparr>world := w\<rparr>
      in case cfg of
           Inl err \<Rightarrow> Inl (PanicMessage err, s1)
         | Inr config \<Rightarrow>
             (case kubernetes_NewForConfig env config of
                Inl err \<Rightarrow> Inl (PanicMessage err, s1)
              | Inr clientset \<Rightarrow>
                  (let (r, err) =
                         (case regexp_Compile env skipNamespaceRegex of
                            Inl e \<Rightarrow> (None, Some e)
                          | Inr re \<Rightarrow> (Some re, None))
                   in if skipNamespaceRegex \<noteq> [] \<and> err \<noteq> None
                      then Inl (PanicMessage (the err), s1)
                      else scanLoop env clientset discoverFrequency tlsTimeout
                             skipNamespaceRegex r cycles s1)))"

section \<open>The regular expressions of the skip pattern\<close>

text \<open>
  Go's \<^verbatim>\<open>regexp\<close> package is a parameter of the model (\<open>regexp_Compile\<close>, \<open>regexp_Match\<close>).
  For the patterns made only of \<^verbatim>\<open>^\<close>, \<^verbatim>\<open>$\<close> and ASCII characters that have no special
  meaning, its behaviour is written out here: \<^verbatim>\<open>^\<close> holds at the start of the text only,
  \<^verbatim>\<open>$\<close> at its end only, any other character stands for itself, and \<^verbatim>\<open>Match\<close> looks for
  a match starting at any position. \<open>re_parse\<close> is \<open>None\<close> on every other pattern, about
  which nothing is said.
\<close>

datatype re_item = BeginText | EndText | Literal char

definition re_special :: string where
  "re_special = [CHR 0x5C] @ ''.+*?()|[]{}''"

definition re_parse_item :: "char \<Rightarrow> re_item option" where
  "re_parse_item c =
     (if c = CHR ''^'' then Some BeginText
      else if c = CHR ''$'' then Some EndText
      else if c \<in> set re_special \<or> (128::nat) \<le> of_char c then None
      else Some (Literal c))"

fun re_parse :: "string \<Rightarrow> re_item list option" where
  "re_parse [] = Some []"
| "re_parse (c # cs) =
     (case re_parse_item c of
        None \<Rightarrow> None
      | Some i \<Rightarrow> (case re_parse cs of None \<Rightarrow> None | Some is \<Rightarrow> Some (i # is)))"

text \<open>\<open>re_match_here items b t\<close>: the items match a prefix of \<open>t\<close>, where \<open>b\<close> says whether
  \<open>t\<close> starts at the beginning of the whole text.\<close>

fun re_match_here :: "re_item list \<Rightarrow> bool \<Rightarrow> string \<Rightarrow> bool" where
  "re_match_here [] b t = True"
| "re_match_here (BeginText # is) b t = (b \<and> re_match_here is b t)"
| "re_match_here (EndText # is) b t = (t = [] \<and> re_match_here is b t)"
| "re_match_here (Literal c # is) b [] = False"
| "re_match_here (Literal c # is) b (x # t) = (x = c \<and> re_match_here is False t)"

fun re_search :: "re_item list \<Rightarrow> bool \<Rightarrow> string \<Rightarrow> bool" where
  "re_search is b [] = re_match_here is b []"
| "re_search is b (x # t) = (re_match_here is b (x # t) \<or> re_search is False t)"

definition re_Match :: "re_item list \<Rightarrow> string \<Rightarrow> bool" where
  "re_Match is t = re_search is True t"

text \<open>An environment's regexp functions agree with the above on the patterns it covers.\<close>

definition regexp_conforms :: "('w, 'cfg, 'cs, 're) env \<Rightarrow> bool" where
  "regexp_conforms env =
     (\<forall>p is. re_parse p = Some is \<longrightarrow>
        (\<exists>re. regexp_Compile env p = Inr re \<and> (\<forall>t. regexp_Match env re t = re_Match is t)))"

section \<open>Reading a trace\<close>

text \<open>The \<open>Set\<close> calls on the labelled gauge, in order.\<close>

fun gaugeSets :: "event list \<Rightarrow> (string list \<times> real) list" where
  "gaugeSets [] = []"
| "gaugeSets (EvGaugeSet lvs v # es) = (lvs, v) # gaugeSets es"
| "gaugeSets (e # es) = gaugeSets es"

text \<open>The answers to the dial calls, in order: one per probe.\<close>

fun dialResults :: "event list \<Rightarrow> (string + conn) list" where
  "dialResults [] = []"
| "dialResults (EvDial t a res # es) = res # dialResults es"
| "dialResults (e # es) = dialResults es"

fun dialedAddrs :: "event list \<Rightarrow> (int \<times> string) list" where
  "dialedAddrs [] = []"
| "dialedAddrs (EvDial t a res # es) = (t, a) # dialedAddrs es"
| "dialedAddrs (e # es) = dialedAddrs es"





text \<open>The events a probe can produce.\<close>

fun probeEvent :: "event \<Rightarrow> bool" where
  "probeEvent (EvDial t a res) = True"
| "probeEvent (EvWrite b err) = True"
| "probeEvent EvClose = True"
| "probeEvent (EvNow t) = True"
| "probeEvent (EvGaugeSet lvs v) = True"
| "probeEvent e = False"

text \<open>What the loop body does for one certificate when the clock reads \<open>now\<close>.\<close>

definition secondsLeft :: "certificate \<Rightarrow> int \<Rightarrow> real" where
  "secondsLeft cert now = Duration_Seconds (Time_Sub (NotAfter cert) now)"

definition certEvents :: "string \<Rightarrow> string \<Rightarrow> 32 word \<Rightarrow> certificate \<times> int \<Rightarrow> event list" where
  "certEvents namespace svc port cn =
     [EvNow (snd cn),
      EvGaugeSet (labelValues namespace svc port (fst cn)) (secondsLeft (fst cn) (snd cn))]"

text \<open>The readings of the clock, in order.\<close>

fun clockReadings :: "event list \<Rightarrow> int list" where
  "clockReadings [] = []"
| "clockReadings (EvNow t # es) = t # clockReadings es"
| "clockReadings (e # es) = clockReadings es"

text \<open>The series and the value set for a certificate when the clock reads \<open>snd cn\<close>.\<close>

definition published ::
  "string \<Rightarrow> string \<Rightarrow> 32 word \<Rightarrow> certificate \<times> int \<Rightarrow> string list \<times> real" where
  "published namespace svc port cn =
     (labelValues namespace svc port (fst cn), secondsLeft (fst cn) (snd cn))"





text \<open>\<open>probe_effect s s' es\<close>: from \<open>s\<close> to \<open>s'\<close> the program made the calls \<open>es\<close>, all of
  them calls of a probe; the labelled gauge holds, for every key set, the last value
  set, and what it held before for every other key; the two other collectors are
  untouched.\<close>

definition probe_effect :: "'w state \<Rightarrow> 'w state \<Rightarrow> event list \<Rightarrow> bool" where
  "probe_effect s s' es =
     (trace s' = trace s @ es \<and>
      expiredCertsGauge s' = expiredCertsGauge s ++ map_of (rev (gaugeSets es)) \<and>
      discoveredCertsGauge s' = discoveredCertsGauge s \<and>
      hearthbeatCounter s' = hearthbeatCounter s \<and>
      list_all probeEvent es)"

text \<open>The state in which a probe or a loop ends, whether it returns or panics.\<close>

definition testTLS_state :: "(panic \<times> 'w state) + (bool \<times> int \<times> 'w state) \<Rightarrow> 'w state" where
  "testTLS_state res = (case res of Inl (p, s) \<Rightarrow> s | Inr (ok, n, s) \<Rightarrow> s)"

definition loop_state :: "(panic \<times> 'w state) + (int \<times> 'w state) \<Rightarrow> 'w state" where
  "loop_state res = (case res of Inl (p, s) \<Rightarrow> s | Inr (n, s) \<Rightarrow> s)"

text \<open>The panics of \<^verbatim>\<open>WithLabelValues\<close>.\<close>

definition labelPanic :: "panic \<Rightarrow> bool" where
  "labelPanic p = (case p of PanicMessage m \<Rightarrow> False | _ \<Rightarrow> True)"

text \<open>The conditions under which no series is refused: the label values of a certificate
  at a target are valid; the issuer fields of a certificate are; every chain an
  environment's dials of the addresses \<open>A\<close> return has valid issuer fields; the names of
  a service are.\<close>

definition labelsValid :: "string \<Rightarrow> string \<Rightarrow> 32 word \<Rightarrow> certificate \<Rightarrow> bool" where
  "labelsValid namespace svc port cert =
     list_all ValidString (labelValues namespace svc port cert)"





section \<open>An example cluster\<close>

text \<open>A world whose state is the clock (nanoseconds since the epoch): every dial and
  every reading of the clock takes one nanosecond. Service \<^verbatim>\<open>api\<close> in \<^verbatim>\<open>default\<close>
  answers on port 443 with a chain of three certificates, \<^verbatim>\<open>db\<close> completes the
  handshake on port 5432 and then fails the write, \<^verbatim>\<open>old\<close> in \<^verbatim>\<open>legacy\<close> answers on port
  8443 with a chain whose second certificate has an issuer name that is not valid UTF-8,
  every other address refuses the connection.\<close>

definition example_leaf :: certificate where
  "example_leaf =
     \<lparr>NotAfter = 1800000000000000000, Issuer_CommonName = ''Example Issuing CA'',
      Issuer_SerialNumber = ''''\<rparr>"

definition example_expired :: certificate where
  "example_expired =
     \<lparr>NotAfter = 1700000000000000000, Issuer_CommonName = ''Example Root CA'',
      Issuer_SerialNumber = ''7''\<rparr>"

text \<open>A certificate without expiry date carries 9999-12-31 23:59:59 UTC.\<close>

definition example_forever :: certificate where
  "example_forever =
     \<lparr>NotAfter = 253402300799000000000, Issuer_CommonName = ''Device CA'',
      Issuer_SerialNumber = ''42''\<rparr>"

text \<open>A certificate whose issuer name is Latin-1 text, which is not valid UTF-8.\<close>

definition example_latin1 :: certificate where
  "example_latin1 =
     \<lparr>NotAfter = 1800000000000000000, Issuer_CommonName = [CHR 0x43, CHR 0x41, CHR 0xE9],
      Issuer_SerialNumber = []\<rparr>"

definition example_chain :: "certificate list" where
  "example_chain = [example_leaf, example_expired, example_forever]"

definition example_dial :: "string \<Rightarrow> string + conn" where
  "example_dial addr =
     (if addr = ''api.default.svc.cluster.local:443''
      then Inr \<lparr>writeErr = None, PeerCertificates = example_chain\<rparr>
      else if addr = ''db.default.svc.cluster.local:5432''
      then Inr \<lparr>writeErr = Some ''broken pipe'', PeerCertificates = [example_leaf]\<rparr>
      else if addr = ''old.legacy.svc.cluster.local:8443''
      then Inr \<lparr>writeErr = None, PeerCertificates = [example_leaf, example_latin1]\<rparr>
      else Inl ''connection refused'')"

definition example_services :: "service list" where
  "example_services =
     [\<lparr>Name = ''api'', Namespace = ''default'', Ports = [443, 80]\<rparr>,
      \<lparr>Name = ''dns'', Namespace = ''kube-system'', Ports = [53]\<rparr>,
      \<lparr>Name = ''db'', Namespace = ''default'', Ports = [5432]\<rparr>]"

definition example_env ::
  "(int \<Rightarrow> string + service list) \<Rightarrow> (int, unit, unit, re_item list) env" where
  "example_env listing =
     \<lparr>rest_InClusterConfig = (\<lambda>w. (Inr (), w)),
      kubernetes_NewForConfig = (\<lambda>config. Inr ()),
      regexp_Compile =
        (\<lambda>p. case re_parse p of Some is \<Rightarrow> Inr is | None \<Rightarrow> Inl ''error parsing regexp''),
      regexp_Match = re_Match,
      services_List = (\<lambda>clientset w. (listing w, w)),
      tls_DialWithDialer = (\<lambda>timeout addr w. (example_dial addr, w + 1)),
      time_Now = (\<lambda>w. (w, w + 1)),
      time_Sleep = (\<lambda>d w. w + d)\<rparr>"

text \<open>The cluster API always answers with the three services.\<close>

definition example_cluster :: "(int, unit, unit, re_item list) env" where
  "example_cluster = example_env (\<lambda>w. Inr example_services)"

text \<open>The cluster API answers until the first sleep is over and refuses afterwards.\<close>

definition example_outage :: "(int, unit, unit, re_item list) env" where
  "example_outage =
     example_env
       (\<lambda>w. if w < 1790007200000000000 then Inr example_services else Inl ''forbidden'')"

definition example_state :: "int state" where
  "example_state =
     \<lparr>world = 1790000000000000000, expiredCertsGauge = Map.empty,
      discoveredCertsGauge = 0, hearthbeatCounter = 0, trace = []\<rparr>"

text \<open>A later state: the first probe of \<^verbatim>\<open>api\<close> has been made and the clock has moved on
  by two hours.\<close>

definition example_state_later :: "int state" where
  "example_state_later =
     (testTLS_state (testTLS example_cluster 400000000 ''api'' ''default'' 443 example_state))
       \<lparr>world := 1790007200000000006\<rparr>"

section \<open>Decimal numbers\<close>

lemma digit_value_digit: "n < 10 \<Longrightarrow> digit_value (digit n) = n"
proof -
  assume "n < 10"
  then have "n \<in> {0, 1, 2, 3, 4, 5, 6, 7, 8, 9}" by auto
  then show ?thesis by (auto simp: digit_value_def digit_def)
qed

lemma decimal_value_itoa_nat: "decimal_value (itoa_nat n) = n"
proof (induction n rule: itoa_nat.induct)
  case (1 n)
  show ?case
  proof (cases "n < 10")
    case True
    then show ?thesis
      by (subst itoa_nat.simps) (simp add: decimal_value_def digit_value_digit)
  next
    case False
    with "1.IH" have "decimal_value (itoa_nat (n div 10)) = n div 10" by simp
    with False show ?thesis
      by (subst itoa_nat.simps) (simp add: decimal_value_def digit_value_digit)
  qed
qed

section \<open>Rounding to float64\<close>

lemma bits_bounds: "0 < n \<Longrightarrow> 2 ^ (bits n - 1) \<le> n \<and> n < 2 ^ bits n"
proof (induction n rule: bits.induct)
  case (1 n)
  show ?case
  proof (cases "n div 2 = 0")
    case True
    with "1.prems" have "n = 1" by (auto simp: div_eq_0_iff)
    then show ?thesis by (simp add: bits.simps)
  next
    case False
    with "1.IH" "1.prems" have ih: "2 ^ (bits (n div 2) - 1) \<le> n div 2" "n div 2 < 2 ^ bits (n div 2)"
      by simp_all
    have b: "bits n = Suc (bits (n div 2))" using "1.prems" by (subst bits.simps) simp
    have p: "0 < bits (n div 2)" using False by (subst bits.simps) simp
    then obtain k where k: "bits (n div 2) = Suc k" by (cases "bits (n div 2)") simp_all
    have "2 * 2 ^ k \<le> 2 * (n div 2)" using ih(1) k by simp
    also have "\<dots> \<le> n" by simp
    finally have lo: "2 ^ (bits n - 1) \<le> n" using b k by simp
    have "n < 2 * (n div 2) + 2" by presburger
    also have "\<dots> \<le> 2 * 2 ^ bits (n div 2)" using ih(2) by simp
    finally have hi: "n < 2 ^ bits n" using b by simp
    from lo hi show ?thesis ..
  qed
qed

lemma bits_pos: "0 < n \<Longrightarrow> 0 < bits n"
  by (subst bits.simps) simp

lemma pow2_powr: "pow2 e = 2 powr real_of_int e"
proof (cases "0 \<le> e")
  case True
  then have "2 powr real_of_int e = 2 powr real (nat e)" by simp
  also have "\<dots> = 2 ^ nat e" by (rule powr_realpow) simp
  finally show ?thesis using True by (simp add: pow2_def)
next
  case False
  then have "2 powr real_of_int e = 2 powr (- real (nat (- e)))" by simp
  also have "\<dots> = 1 / 2 powr real (nat (- e))" by (simp add: powr_minus divide_inverse)
  also have "2 powr real (nat (- e)) = 2 ^ nat (- e)" by (rule powr_realpow) simp
  finally show ?thesis using False by (simp add: pow2_def)
qed

lemma pow2_add: "pow2 (a + b) = pow2 a * pow2 b"
  by (simp add: pow2_powr powr_add)

lemma pow2_pos: "0 < pow2 e"
  by (simp add: pow2_powr)

lemma pow2_mono: "a \<le> b \<Longrightarrow> pow2 a \<le> pow2 b"
  by (simp add: pow2_powr)

lemma pow2_less_iff: "pow2 a < pow2 b \<longleftrightarrow> a < b"
  by (simp add: pow2_powr)

lemma pow2_nat: "pow2 (int n) = 2 ^ n"
  by (simp add: pow2_def)

lemma exponent2_bounds:
  assumes "0 < a"
  shows "pow2 (exponent2 a) \<le> a \<and> a < pow2 (exponent2 a + 1)"
proof (cases "1 \<le> a")
  case True
  define n where "n = nat \<lfloor>a\<rfloor>"
  have n: "0 < n" using True by (simp add: n_def)
  have e: "exponent2 a = int (bits n) - 1" using True by (simp add: exponent2_def n_def)
  from bits_bounds [OF n] have lo: "2 ^ (bits n - 1) \<le> n" and hi: "n < 2 ^ bits n" by simp_all
  have bp: "0 < bits n" using n by (rule bits_pos)
  have na: "real n \<le> a" using True by (simp add: n_def)
  have an: "a < real n + 1" using True by (simp add: n_def)
  have "pow2 (exponent2 a) = 2 ^ (bits n - 1)"
    using bp by (simp add: e pow2_def nat_diff_distrib') 
  also have "\<dots> \<le> real n" using lo by (metis of_nat_le_iff of_nat_numeral of_nat_power)
  finally have 1: "pow2 (exponent2 a) \<le> a" using na by simp
  have "n + 1 \<le> 2 ^ bits n" using hi by simp
  then have "real n + 1 \<le> 2 ^ bits n" by (metis of_nat_le_iff of_nat_numeral of_nat_power of_nat_Suc Suc_eq_plus1 add.commute)
  moreover have "pow2 (exponent2 a + 1) = 2 ^ bits n" by (simp add: e pow2_def)
  ultimately have 2: "a < pow2 (exponent2 a + 1)" using an by simp
  from 1 2 show ?thesis ..
next
  case False
  with assms have a1: "a < 1" by simp
  then have inv: "1 < 1 / a" using assms by simp
  define c where "c = \<lceil>1 / a\<rceil>"
  have c2: "2 \<le> c" using inv by (simp add: c_def)
  define m where "m = nat (c - 1)"
  have m: "0 < m" using c2 by (simp add: m_def)
  have e: "exponent2 a = - int (bits m)" using False by (simp add: exponent2_def m_def c_def)
  from bits_bounds [OF m] have lo: "2 ^ (bits m - 1) \<le> m" and hi: "m < 2 ^ bits m" by simp_all
  have bp: "0 < bits m" using m by (rule bits_pos)
  have cm: "real_of_int c = real m + 1" using c2 by (simp add: m_def)
  have up: "1 / a \<le> real_of_int c" by (simp add: c_def)
  have dn: "real_of_int c - 1 < 1 / a" unfolding c_def by linarith
  have "m + 1 \<le> 2 ^ bits m" using hi by simp
  then have "real m + 1 \<le> 2 ^ bits m"
    by (metis of_nat_le_iff of_nat_numeral of_nat_power of_nat_Suc Suc_eq_plus1 add.commute)
  with up cm have "1 / a \<le> 2 ^ bits m" by linarith
  then have "1 / 2 ^ bits m \<le> a" using assms
    by (simp add: field_simps)
  moreover have "pow2 (exponent2 a) = 1 / 2 ^ bits m" using bp by (simp add: e pow2_def)
  ultimately have 1: "pow2 (exponent2 a) \<le> a" by simp
  have "(2::real) ^ (bits m - 1) \<le> real m" using lo by (metis of_nat_le_iff of_nat_numeral of_nat_power)
  with dn cm have "2 ^ (bits m - 1) < 1 / a" by linarith
  then have "a < 1 / 2 ^ (bits m - 1)" using assms by (simp add: field_simps)
  moreover have "pow2 (exponent2 a + 1) = 1 / 2 ^ (bits m - 1)"
  proof -
    obtain k where k: "bits m = Suc k" using bp by (cases "bits m") simp_all
    have "pow2 (exponent2 a + 1) = pow2 (exponent2 a) * pow2 1" by (rule pow2_add)
    also have "pow2 1 = 2" by (simp add: pow2_def)
    also have "pow2 (exponent2 a) = 1 / 2 ^ bits m" using bp by (simp add: e pow2_def)
    finally show ?thesis by (simp add: k)
  qed
  ultimately have 2: "a < pow2 (exponent2 a + 1)" by simp
  from 1 2 show ?thesis ..
qed


lemma round_even_of_int: "round_even (real_of_int n) = n"
  by (simp add: round_even_def)

lemma round_even_ge_floor: "\<lfloor>y\<rfloor> \<le> round_even y"
  by (simp add: round_even_def Let_def)


lemma round64_minus: "round64 (- x) = - round64 x"
  by (simp add: round64_def Let_def)

lemma round64_zero: "round64 0 = 0"
  by (simp add: round64_def)

lemma exponent2_ge:
  assumes "pow2 k \<le> a"
  shows "k \<le> exponent2 a"
proof -
  have "0 < a" using assms pow2_pos [of k] by linarith
  from exponent2_bounds [OF this] assms have "pow2 k < pow2 (exponent2 a + 1)" by linarith
  then show ?thesis by (simp add: pow2_less_iff)
qed

lemma exponent2_less:
  assumes "0 < a" and "a < pow2 k"
  shows "exponent2 a < k"
proof -
  from exponent2_bounds [OF assms(1)] assms(2) have "pow2 (exponent2 a) < pow2 k" by linarith
  then show ?thesis by (simp add: pow2_less_iff)
qed

text \<open>For a positive normal number: the parts of round64.\<close>

lemma round64_pos_eq:
  assumes "pow2 (- 1022) \<le> x"
  shows "round64 x =
           real_of_int (round_even (x / pow2 (exponent2 x - 52))) * pow2 (exponent2 x - 52)"
proof -
  have x: "0 < x" using assms pow2_pos [of "- 1022"] by linarith
  have "- 1022 \<le> exponent2 x" using assms by (rule exponent2_ge)
  then have "max (exponent2 x) (- 1022) = exponent2 x" by simp
  with x show ?thesis by (simp add: round64_def Let_def)
qed



lemma round64_int_exact:
  assumes "\<bar>i\<bar> < 2 ^ 53"
  shows "round64 (real_of_int i) = real_of_int i"
proof -
  have pos: "round64 (real_of_int j) = real_of_int j" if j: "0 < j" "j < 2 ^ 53" for j :: int
  proof -
    let ?x = "real_of_int j"
    have one: "pow2 0 \<le> ?x" using j by (simp add: pow2_def)
    have n: "pow2 (- 1022) \<le> ?x" using pow2_mono [of "- 1022" 0] one by linarith
    have e0: "0 \<le> exponent2 ?x" using one by (rule exponent2_ge)
    have "?x < pow2 53" using j by (simp add: pow2_def)
    then have e1: "exponent2 ?x < 53" using j by (intro exponent2_less) simp_all
    define k where "k = nat (52 - exponent2 ?x)"
    have u: "pow2 (exponent2 ?x - 52) = 1 / 2 ^ k"
    proof (cases "exponent2 ?x = 52")
      case True
      then show ?thesis by (simp add: k_def pow2_def)
    next
      case False
      with e1 have "exponent2 ?x - 52 < 0" by simp
      then show ?thesis by (simp add: k_def pow2_def)
    qed
    have "?x / (1 / 2 ^ k) = real_of_int (j * 2 ^ k)" by simp
    then have "round_even (?x / (1 / 2 ^ k)) = j * 2 ^ k" by (simp only: round_even_of_int)
    with round64_pos_eq [OF n] u show ?thesis by simp
  qed
  show ?thesis
  proof (cases "i = 0")
    case True
    then show ?thesis by (simp add: round64_zero)
  next
    case False
    show ?thesis
    proof (cases "0 < i")
      case True
      with assms show ?thesis by (intro pos) simp_all
    next
      case neg: False
      with False assms have "0 < - i" "- i < 2 ^ 53" by simp_all
      from pos [OF this] have "round64 (- real_of_int i) = - real_of_int i" by simp
      then show ?thesis by (simp add: round64_minus)
    qed
  qed
qed

lemma sdiv_smod_neg:
  "(- d) sdiv Second = - (d sdiv Second)" "(- d) smod Second = - (d smod Second)"
  by (simp_all add: signed_divide_int_def signed_modulo_int_def Second_def)

lemma sdiv_smod_nonneg:
  "0 \<le> d \<Longrightarrow> d sdiv Second = d div Second" "0 \<le> d \<Longrightarrow> d smod Second = d mod Second"
  by (simp_all add: signed_divide_int_def signed_modulo_int_def Second_def sgn_if)

lemma Duration_Seconds_minus: "Duration_Seconds (- d) = - Duration_Seconds d"
proof -
  define a where "a = round64 (real_of_int (d sdiv Second))"
  define b where "b = round64 (round64 (real_of_int (d smod Second)) / 1000000000)"
  have "round64 (real_of_int (- d sdiv Second)) = - a"
    by (simp only: sdiv_smod_neg of_int_minus round64_minus a_def)
  moreover have "round64 (round64 (real_of_int (- d smod Second)) / 1000000000) = - b"
  proof -
    have "round64 (real_of_int (- d smod Second)) / 1000000000 =
            - (round64 (real_of_int (d smod Second)) / 1000000000)"
      by (simp only: sdiv_smod_neg of_int_minus round64_minus minus_divide_left)
    then show ?thesis by (simp only: round64_minus b_def)
  qed
  moreover have "round64 (- a + - b) = - round64 (a + b)"
  proof -
    have "- a + - b = - (a + b)" by simp
    then show ?thesis by (simp only: round64_minus)
  qed
  ultimately show ?thesis
    by (simp only: Duration_Seconds_def Let_def a_def b_def)
qed



lemma Duration_Seconds_eval:
  assumes "0 \<le> d" and "d \<le> 2 ^ 63"
  shows "Duration_Seconds d =
           round64 (real_of_int (d div Second) +
                    round64 (real_of_int (d mod Second) / 1000000000))"
proof -
  have s0: "0 \<le> d div Second" using assms(1) by (simp add: Second_def pos_imp_zdiv_nonneg_iff)
  have "d div Second \<le> 2 ^ 63 div Second"
    using assms(2) by (rule zdiv_mono1) (simp add: Second_def)
  also have "(2 ^ 63 :: int) div Second = 9223372036" unfolding Second_def by simp
  finally have s1: "d div Second \<le> 9223372036" .
  have n: "0 \<le> d mod Second" "d mod Second < Second" by (simp_all add: Second_def)
  have exs: "round64 (real_of_int (d div Second)) = real_of_int (d div Second)"
    using s0 s1 by (intro round64_int_exact) simp
  have exn: "round64 (real_of_int (d mod Second)) = real_of_int (d mod Second)"
    using n by (intro round64_int_exact) (simp add: Second_def)
  have sd: "d sdiv Second = d div Second" "d smod Second = d mod Second"
    using assms(1) by (simp_all add: sdiv_smod_nonneg)
  show ?thesis unfolding Duration_Seconds_def Let_def sd exs exn ..
qed




lemma Duration_Seconds_9999999999999999:
  "Duration_Seconds 9999999999999999 = 5368709119999999 / 536870912"
proof -
  have f: "round64 (999999999 / 1000000000) = 9007199245733793 / 9007199254740992"
    unfolding round64_def Let_def
    by (simp add: exponent2_def bits.simps) (simp add: pow2_def round_even_def Let_def)
  have "Duration_Seconds 9999999999999999 = round64 (9999999 + round64 (999999999 / 1000000000))"
    by (simp add: Duration_Seconds_eval Second_def)
  also have "\<dots> = round64 (9999999 + 9007199245733793 / 9007199254740992)" by (simp only: f)
  also have "\<dots> = 5368709119999999 / 536870912"
    unfolding round64_def Let_def
    by (simp add: exponent2_def bits.simps) (simp add: pow2_def round_even_def Let_def)
  finally show ?thesis .
qed

lemma Duration_Seconds_90000000000000002:
  "Duration_Seconds 90000000000000002 = 90000000"
proof -
  have f: "round64 (2 / 1000000000) = 4835703278458517 / 2417851639229258349412352"
    unfolding round64_def Let_def
    by (simp add: exponent2_def bits.simps) (simp add: pow2_def round_even_def Let_def)
  have "Duration_Seconds 90000000000000002 = round64 (90000000 + round64 (2 / 1000000000))"
    by (simp add: Duration_Seconds_eval Second_def)
  also have "\<dots> = round64 (90000000 + 4835703278458517 / 2417851639229258349412352)" by (simp only: f)
  also have "\<dots> = 90000000"
    unfolding round64_def Let_def
    by (simp add: exponent2_def bits.simps) (simp add: pow2_def round_even_def Let_def)
  finally show ?thesis .
qed

lemma Duration_Seconds_9223372036854775807:
  "Duration_Seconds 9223372036854775807 = 4835703278458517 / 524288"
proof -
  have f: "round64 (854775807 / 1000000000) = 3849568005890515 / 4503599627370496"
    unfolding round64_def Let_def
    by (simp add: exponent2_def bits.simps) (simp add: pow2_def round_even_def Let_def)
  have "Duration_Seconds 9223372036854775807 = round64 (9223372036 + round64 (854775807 / 1000000000))"
    by (simp add: Duration_Seconds_eval Second_def)
  also have "\<dots> = round64 (9223372036 + 3849568005890515 / 4503599627370496)" by (simp only: f)
  also have "\<dots> = 4835703278458517 / 524288"
    unfolding round64_def Let_def
    by (simp add: exponent2_def bits.simps) (simp add: pow2_def round_even_def Let_def)
  finally show ?thesis .
qed

lemma Duration_Seconds_9992799999999993:
  "Duration_Seconds 9992799999999993 = 1341210912358399 / 134217728"
proof -
  have f: "round64 (999999993 / 1000000000) = 9007199191690597 / 9007199254740992"
    unfolding round64_def Let_def
    by (simp add: exponent2_def bits.simps) (simp add: pow2_def round_even_def Let_def)
  have "Duration_Seconds 9992799999999993 = round64 (9992799 + round64 (999999993 / 1000000000))"
    by (simp add: Duration_Seconds_eval Second_def)
  also have "\<dots> = round64 (9992799 + 9007199191690597 / 9007199254740992)" by (simp only: f)
  also have "\<dots> = 1341210912358399 / 134217728"
    unfolding round64_def Let_def
    by (simp add: exponent2_def bits.simps) (simp add: pow2_def round_even_def Let_def)
  finally show ?thesis .
qed

lemma Duration_Seconds_90007200000000008:
  "Duration_Seconds 90007200000000008 = 6040280943820801 / 67108864"
proof -
  have f: "round64 (8 / 1000000000) = 4835703278458517 / 604462909807314587353088"
    unfolding round64_def Let_def
    by (simp add: exponent2_def bits.simps) (simp add: pow2_def round_even_def Let_def)
  have "Duration_Seconds 90007200000000008 = round64 (90007200 + round64 (8 / 1000000000))"
    by (simp add: Duration_Seconds_eval Second_def)
  also have "\<dots> = round64 (90007200 + 4835703278458517 / 604462909807314587353088)" by (simp only: f)
  also have "\<dots> = 6040280943820801 / 67108864"
    unfolding round64_def Let_def
    by (simp add: exponent2_def bits.simps) (simp add: pow2_def round_even_def Let_def)
  finally show ?thesis .
qed


section \<open>Valid label values\<close>






lemma WithLabelValues_valid:
  "labelsValid ns svc port cert \<Longrightarrow>
   WithLabelValues (labelValues ns svc port cert) = Inr (labelValues ns svc port cert)"
  by (auto simp: WithLabelValues_def labelsValid_def labelNames_def find_None_iff list_all_iff
      labelValues_def split: option.splits)

lemma WithLabelValues_invalid:
  "\<not> labelsValid ns svc port cert \<Longrightarrow>
   \<exists>v. WithLabelValues (labelValues ns svc port cert) = Inl (InvalidLabelValue v)"
proof -
  assume "\<not> labelsValid ns svc port cert"
  then have "find (\<lambda>v. \<not> ValidString v) (labelValues ns svc port cert) \<noteq> None"
    by (auto simp: labelsValid_def find_None_iff list_all_iff)
  then show ?thesis
    by (auto simp: WithLabelValues_def labelNames_def labelValues_def)
qed

lemma WithLabelValues_panic: "WithLabelValues lvs = Inl p \<Longrightarrow> labelPanic p"
  by (auto simp: WithLabelValues_def labelPanic_def split: if_splits option.splits)

section \<open>Traces and effects of the loops\<close>

lemma gaugeSets_append: "gaugeSets (xs @ ys) = gaugeSets xs @ gaugeSets ys"
  by (induction xs rule: gaugeSets.induct) simp_all

lemma dialResults_append: "dialResults (xs @ ys) = dialResults xs @ dialResults ys"
  by (induction xs rule: dialResults.induct) simp_all





lemma probe_effect_refl: "probe_effect s s []"
  by (simp add: probe_effect_def)

lemma probe_effect_trans:
  "probe_effect s s1 es1 \<Longrightarrow> probe_effect s1 s2 es2 \<Longrightarrow> probe_effect s s2 (es1 @ es2)"
  by (simp add: probe_effect_def gaugeSets_append)

lemma dialResults_probe: "dialResults (xs @ ys) = [] \<longleftrightarrow> dialResults xs = [] \<and> dialResults ys = []"
  by (simp add: dialResults_append)

lemma dialedAddrs_no_dial: "dialResults es = [] \<Longrightarrow> dialedAddrs es = []"
  by (induction es rule: dialResults.induct) simp_all

text \<open>The loop over a chain whose label values are all valid.\<close>

lemma certLoop_effect:
  assumes "list_all (labelsValid ns svc port) certs"
  shows "\<exists>nows s'. length nows = length certs \<and>
     certLoop env ns svc port certs (n, s) = Inr (n + int (length certs), s') \<and>
     probe_effect s s' (concat (map (certEvents ns svc port) (zip certs nows)))"
  using assms
proof (induction certs arbitrary: n s)
  case Nil
  then show ?case by (simp add: probe_effect_refl)
next
  case (Cons cert certs)
  obtain now w where nw: "time_Now env (world s) = (now, w)" by (cases "time_Now env (world s)")
  define s1 where "s1 = s\<lparr>world := w,
              expiredCertsGauge := (expiredCertsGauge s)(labelValues ns svc port cert \<mapsto> secondsLeft cert now),
              trace := trace s @ certEvents ns svc port (cert, now)\<rparr>"
  from Cons.prems have v: "labelsValid ns svc port cert" and vs: "list_all (labelsValid ns svc port) certs"
    by simp_all
  have step: "certLoop env ns svc port (cert # certs) (n, s) = certLoop env ns svc port certs (n + 1, s1)"
    by (simp add: nw s1_def certEvents_def secondsLeft_def Let_def WithLabelValues_valid [OF v])
  have e1: "probe_effect s s1 (certEvents ns svc port (cert, now))"
    by (simp add: probe_effect_def s1_def certEvents_def)
  from Cons.IH [OF vs, of "n + 1" s1] obtain nows s' where
    l: "length nows = length certs" and
    c: "certLoop env ns svc port certs (n + 1, s1) = Inr (n + 1 + int (length certs), s')" and
    e2: "probe_effect s1 s' (concat (map (certEvents ns svc port) (zip certs nows)))" by blast
  have "length (now # nows) = length (cert # certs)" using l by simp
  moreover have "certLoop env ns svc port (cert # certs) (n, s) = Inr (n + int (length (cert # certs)), s')"
    using c step by simp
  moreover have "probe_effect s s' (concat (map (certEvents ns svc port) (zip (cert # certs) (now # nows))))"
    using probe_effect_trans [OF e1 e2] by simp
  ultimately show ?case by blast
qed

text \<open>The loop over any chain: it makes calls of a probe, none of them a dial, and when
  it panics the panic is one of \<^verbatim>\<open>WithLabelValues\<close>.\<close>

lemma certLoop_run:
  "\<exists>es. probe_effect s (loop_state (certLoop env ns svc port certs (n, s))) es \<and>
         dialResults es = [] \<and>
         (\<forall>p s'. certLoop env ns svc port certs (n, s) = Inl (p, s') \<longrightarrow> labelPanic p)"
proof (induction certs arbitrary: n s)
  case Nil
  have "probe_effect s (loop_state (certLoop env ns svc port [] (n, s))) []"
    by (simp add: loop_state_def probe_effect_refl)
  then show ?case by (intro exI [of _ "[]"]) simp
next
  case (Cons cert certs)
  obtain now w where nw: "time_Now env (world s) = (now, w)" by (cases "time_Now env (world s)")
  define s0 where "s0 = s\<lparr>world := w, trace := trace s @ [EvNow now]\<rparr>"
  have e0: "probe_effect s s0 [EvNow now]" by (simp add: probe_effect_def s0_def)
  show ?case
  proof (cases "WithLabelValues (labelValues ns svc port cert)")
    case (Inl p)
    then have r: "certLoop env ns svc port (cert # certs) (n, s) = Inl (p, s0)"
      by (simp add: nw s0_def)
    have "labelPanic p" using Inl by (rule WithLabelValues_panic)
    with e0 r show ?thesis by (intro exI [of _ "[EvNow now]"]) (simp add: loop_state_def)
  next
    case (Inr lvs)
    define v where "v = Duration_Seconds (Time_Sub (NotAfter cert) now)"
    define s1 where "s1 = s0\<lparr>expiredCertsGauge := (expiredCertsGauge s0)(lvs \<mapsto> v),
                               trace := trace s0 @ [EvGaugeSet lvs v]\<rparr>"
    have step: "certLoop env ns svc port (cert # certs) (n, s) =
                  certLoop env ns svc port certs (n + 1, s1)"
      using Inr by (simp add: nw s0_def s1_def v_def Let_def)
    have e1: "probe_effect s0 s1 [EvGaugeSet lvs v]" by (simp add: probe_effect_def s1_def)
    from Cons.IH [of s1 "n + 1"] obtain es where
      e2: "probe_effect s1 (loop_state (certLoop env ns svc port certs (n + 1, s1))) es" and
      d2: "dialResults es = []" and
      p2: "\<forall>p s'. certLoop env ns svc port certs (n + 1, s1) = Inl (p, s') \<longrightarrow> labelPanic p"
      by blast
    have "probe_effect s (loop_state (certLoop env ns svc port (cert # certs) (n, s)))
            ([EvNow now] @ [EvGaugeSet lvs v] @ es)"
      using probe_effect_trans [OF e0 probe_effect_trans [OF e1 e2]] step by simp
    moreover have "dialResults ([EvNow now] @ [EvGaugeSet lvs v] @ es) = []" using d2 by simp
    ultimately show ?thesis using p2 step
      by (intro exI [of _ "[EvNow now] @ [EvGaugeSet lvs v] @ es"]) simp
  qed
qed

text \<open>A chain with a label value that is not valid: the loop panics.\<close>

lemma certLoop_invalid:
  assumes "\<not> list_all (labelsValid ns svc port) certs"
  shows "\<exists>v s'. certLoop env ns svc port certs (n, s) = Inl (InvalidLabelValue v, s')"
  using assms
proof (induction certs arbitrary: n s)
  case Nil
  then show ?case by simp
next
  case (Cons cert certs)
  obtain now w where nw: "time_Now env (world s) = (now, w)" by (cases "time_Now env (world s)")
  show ?case
  proof (cases "labelsValid ns svc port cert")
    case True
    with Cons.prems have "\<not> list_all (labelsValid ns svc port) certs" by simp
    from Cons.IH [OF this] show ?thesis
      by (simp add: nw Let_def WithLabelValues_valid [OF True])
  next
    case False
    from WithLabelValues_invalid [OF this] obtain v where
      "WithLabelValues (labelValues ns svc port cert) = Inl (InvalidLabelValue v)" ..
    then show ?thesis by (simp add: nw)
  qed
qed

section \<open>One probe\<close>

lemma testTLS_dial_failed:
  assumes "tls_DialWithDialer env t (fullhostname svc ns port) (world s) = (Inl err, w)"
  shows "testTLS env t svc ns port s =
           Inr (False, 0, s\<lparr>world := w,
                            trace := trace s @ [EvDial t (fullhostname svc ns port) (Inl err)]\<rparr>)"
  using assms by (simp add: testTLS_def)

lemma testTLS_write_failed:
  assumes "tls_DialWithDialer env t (fullhostname svc ns port) (world s) = (Inr c, w)"
    and "writeErr c = Some err"
  shows "testTLS env t svc ns port s =
           Inr (False, 0, s\<lparr>world := w,
                            trace := trace s @ [EvDial t (fullhostname svc ns port) (Inr c),
                                                EvWrite ping (Some err), EvClose]\<rparr>)"
  using assms by (simp add: testTLS_def conn_Close_def)

lemma testTLS_ok:
  assumes "tls_DialWithDialer env t (fullhostname svc ns port) (world s) = (Inr c, w)"
    and "writeErr c = None"
    and "list_all (labelsValid ns svc port) (PeerCertificates c)"
  shows "\<exists>nows s'. length nows = length (PeerCertificates c) \<and>
           testTLS env t svc ns port s = Inr (True, int (length (PeerCertificates c)), s') \<and>
           probe_effect s s'
             ([EvDial t (fullhostname svc ns port) (Inr c), EvWrite ping None] @
              concat (map (certEvents ns svc port) (zip (PeerCertificates c) nows)) @
              [EvClose])"
proof -
  define s2 where "s2 = s\<lparr>world := w,
     trace := trace s @ [EvDial t (fullhostname svc ns port) (Inr c), EvWrite ping None]\<rparr>"
  from certLoop_effect [OF assms(3), of env 0 s2] obtain nows s3 where
    l: "length nows = length (PeerCertificates c)" and
    r: "certLoop env ns svc port (PeerCertificates c) (0, s2) =
          Inr (int (length (PeerCertificates c)), s3)" and
    e2: "probe_effect s2 s3
           (concat (map (certEvents ns svc port) (zip (PeerCertificates c) nows)))"
    by auto
  have t: "testTLS env t svc ns port s =
             Inr (True, int (length (PeerCertificates c)), conn_Close s3)"
    using assms(1,2) r by (simp add: testTLS_def s2_def Let_def)
  have e1: "probe_effect s s2 [EvDial t (fullhostname svc ns port) (Inr c), EvWrite ping None]"
    by (simp add: probe_effect_def s2_def)
  have e3: "probe_effect s3 (conn_Close s3) [EvClose]"
    by (simp add: probe_effect_def conn_Close_def)
  have "probe_effect s (conn_Close s3)
          ([EvDial t (fullhostname svc ns port) (Inr c), EvWrite ping None] @
           concat (map (certEvents ns svc port) (zip (PeerCertificates c) nows)) @ [EvClose])"
    using probe_effect_trans [OF e1 probe_effect_trans [OF e2 e3]] .
  with l t show ?thesis by blast
qed

lemma testTLS_invalid:
  assumes "tls_DialWithDialer env t (fullhostname svc ns port) (world s) = (Inr c, w)"
    and "writeErr c = None"
    and "\<not> list_all (labelsValid ns svc port) (PeerCertificates c)"
  shows "\<exists>v s'. testTLS env t svc ns port s = Inl (InvalidLabelValue v, s')"
proof -
  define s2 where "s2 = s\<lparr>world := w,
     trace := trace s @ [EvDial t (fullhostname svc ns port) (Inr c), EvWrite ping None]\<rparr>"
  from certLoop_invalid [OF assms(3), of env 0 s2] obtain v s3 where
    "certLoop env ns svc port (PeerCertificates c) (0, s2) = Inl (InvalidLabelValue v, s3)"
    by blast
  then have "testTLS env t svc ns port s = Inl (InvalidLabelValue v, conn_Close s3)"
    using assms(1,2) by (simp add: testTLS_def s2_def Let_def)
  then show ?thesis by blast
qed


text \<open>Any probe: the dial is its first call and its only dial; a panic is one of
  \<^verbatim>\<open>WithLabelValues\<close>.\<close>

lemma testTLS_run:
  assumes "tls_DialWithDialer env t (fullhostname svc ns port) (world s) = (res, w)"
  shows "\<exists>es. probe_effect s (testTLS_state (testTLS env t svc ns port s))
                 (EvDial t (fullhostname svc ns port) res # es) \<and>
              dialResults es = [] \<and>
              (\<forall>p s'. testTLS env t svc ns port s = Inl (p, s') \<longrightarrow> labelPanic p)"
proof (cases res)
  case (Inl err)
  with assms have "testTLS env t svc ns port s =
      Inr (False, 0, s\<lparr>world := w, trace := trace s @ [EvDial t (fullhostname svc ns port) res]\<rparr>)"
    by (simp add: testTLS_dial_failed)
  then show ?thesis
    by (intro exI [of _ "[]"]) (simp add: probe_effect_def testTLS_state_def)
next
  case (Inr c)
  show ?thesis
  proof (cases "writeErr c")
    case (Some err)
    from testTLS_write_failed [OF assms [unfolded Inr] Some]
    show ?thesis
      using Inr by (intro exI [of _ "[EvWrite ping (Some err), EvClose]"])
        (simp add: probe_effect_def testTLS_state_def)
  next
    case None
    define s2 where "s2 = s\<lparr>world := w,
       trace := trace s @ [EvDial t (fullhostname svc ns port) (Inr c), EvWrite ping None]\<rparr>"
    define q where "q = certLoop env ns svc port (PeerCertificates c) (0, s2)"
    from certLoop_run [of s2 env ns svc port "PeerCertificates c" 0] obtain es where
      e2: "probe_effect s2 (loop_state q) es" and d: "dialResults es = []" and
      p: "\<forall>p s'. q = Inl (p, s') \<longrightarrow> labelPanic p"
      unfolding q_def by blast
    have e1: "probe_effect s s2 [EvDial t (fullhostname svc ns port) (Inr c), EvWrite ping None]"
      by (simp add: probe_effect_def s2_def)
    have e3: "probe_effect (loop_state q) (conn_Close (loop_state q)) [EvClose]"
      by (simp add: probe_effect_def conn_Close_def)
    have st: "testTLS_state (testTLS env t svc ns port s) = conn_Close (loop_state q)"
      using assms Inr None
      by (simp add: testTLS_def s2_def [symmetric] q_def [symmetric] Let_def testTLS_state_def
          loop_state_def split: sum.splits prod.splits)
    have pn: "\<forall>p s'. testTLS env t svc ns port s = Inl (p, s') \<longrightarrow> labelPanic p"
      using assms Inr None p
      by (auto simp: testTLS_def s2_def [symmetric] q_def [symmetric] Let_def
          split: sum.splits prod.splits)
    have "probe_effect s (conn_Close (loop_state q))
            ([EvDial t (fullhostname svc ns port) (Inr c), EvWrite ping None] @ es @ [EvClose])"
      using probe_effect_trans [OF e1 probe_effect_trans [OF e2 e3]] .
    then show ?thesis
      using Inr st pn d
      by (intro exI [of _ "EvWrite ping None # es @ [EvClose]"]) (simp add: dialResults_append)
  qed
qed


section \<open>The loops over ports and services\<close>



lemma portLoop_panic:
  "portLoop env t svc ns ports (d, s) = Inl (p, s') \<Longrightarrow> labelPanic p"
proof (induction ports arbitrary: d s)
  case Nil
  then show ?case by simp
next
  case (Cons port ports)
  obtain res w where dial: "tls_DialWithDialer env t (fullhostname svc ns port) (world s) = (res, w)"
    by (cases "tls_DialWithDialer env t (fullhostname svc ns port) (world s)")
  from testTLS_run [OF dial] have
    pn: "\<forall>p s'. testTLS env t svc ns port s = Inl (p, s') \<longrightarrow> labelPanic p" by blast
  show ?case
  proof (cases "testTLS env t svc ns port s")
    case (Inl q)
    with Cons.prems have "testTLS env t svc ns port s = Inl (p, s')" by simp
    with pn show ?thesis by blast
  next
    case (Inr r)
    obtain ok n s1 where r: "r = (ok, n, s1)" by (cases r)
    with Inr Cons.prems have
      "portLoop env t svc ns ports (if ok then d + n else d, s1) = Inl (p, s')" by simp
    then show ?thesis by (rule Cons.IH)
  qed
qed


lemma svcLoop_panic:
  "svcLoop env t p r items (d, s) = Inl (q, s') \<Longrightarrow> labelPanic q"
proof (induction items arbitrary: d s)
  case Nil
  then show ?case by simp
next
  case (Cons svc items)
  show ?case
  proof (cases "shouldSkip env p r (Namespace svc)")
    case True
    with Cons.prems have "svcLoop env t p r items (d, s) = Inl (q, s')" by simp
    then show ?thesis by (rule Cons.IH)
  next
    case False
    show ?thesis
    proof (cases "portLoop env t (Name svc) (Namespace svc) (Ports svc) (d, s)")
      case (Inl x)
      with False Cons.prems have
        "portLoop env t (Name svc) (Namespace svc) (Ports svc) (d, s) = Inl (q, s')" by simp
      then show ?thesis by (rule portLoop_panic)
    next
      case (Inr ds)
      obtain d1 s1 where ds: "ds = (d1, s1)" by (cases ds)
      with Inr False Cons.prems have "svcLoop env t p r items (d1, s1) = Inl (q, s')" by simp
      then show ?thesis by (rule Cons.IH)
    qed
  qed
qed

section \<open>One scan cycle\<close>

lemma scanCycle_failed:
  assumes "services_List env cs (world s) = (Inl err, w)"
  shows "scanCycle env cs f t p r s =
           Inl (PanicMessage err, s\<lparr>world := w, trace := trace s @ [EvList (Inl err)]\<rparr>)"
  using assms by (simp add: scanCycle_def)


lemma scanCycle_panic:
  assumes "scanCycle env cs f t p r s = Inl (q, s')"
  shows "(\<exists>msg w. q = PanicMessage msg \<and> services_List env cs (world s) = (Inl msg, w) \<and>
            s' = s\<lparr>world := w, trace := trace s @ [EvList (Inl msg)]\<rparr>) \<or>
         labelPanic q"
proof -
  obtain res w where l: "services_List env cs (world s) = (res, w)"
    by (cases "services_List env cs (world s)")
  show ?thesis
  proof (cases res)
    case (Inl err)
    with l assms scanCycle_failed [of env cs s err w f t p r] show ?thesis by auto
  next
    case (Inr items)
    define s1 where "s1 = s\<lparr>world := w, trace := trace s @ [EvList (Inr items)]\<rparr>"
    show ?thesis
    proof (cases "svcLoop env t p r items (0, s1)")
      case (Inl x)
      with l Inr assms have "svcLoop env t p r items (0, s1) = Inl (q, s')"
        by (simp add: scanCycle_def s1_def [symmetric])
      then have "labelPanic q" by (rule svcLoop_panic)
      then show ?thesis ..
    next
      case r: (Inr ds)
      with l Inr assms show ?thesis
        by (simp add: scanCycle_def s1_def [symmetric] Let_def split: prod.splits)
    qed
  qed
qed

lemmas example_defs =
  example_cluster_def example_outage_def example_env_def example_state_def example_dial_def
  example_services_def example_chain_def
  example_leaf_def example_expired_def example_forever_def example_latin1_def

lemmas Itoa_eval = Itoa_def itoa_nat.simps digit_def

lemmas label_eval =
  WithLabelValues_def labelNames_def labelValues_def ValidString_def cont_def second3_def
  second4_def

lemmas seconds_eval =
  Time_Sub_def minDuration_def maxDuration_def Duration_Seconds_minus
  Duration_Seconds_9999999999999999 Duration_Seconds_90000000000000002
  Duration_Seconds_9223372036854775807 Duration_Seconds_9992799999999993
  Duration_Seconds_90007200000000008

lemma example_probe:
  "testTLS example_cluster 400000000 ''api'' ''default'' 443 example_state =
   Inr (True, 3,
     \<lparr>world = 1790000000000000004,
      expiredCertsGauge =
        [[''default'', ''api'', ''443'', ''Example Issuing CA'', ''''] \<mapsto>
           5368709119999999 / 536870912,
         [''default'', ''api'', ''443'', ''Example Root CA'', ''7''] \<mapsto> - 90000000,
         [''default'', ''api'', ''443'', ''Device CA'', ''42''] \<mapsto>
           4835703278458517 / 524288],
      discoveredCertsGauge = 0, hearthbeatCounter = 0,
      trace =
        [EvDial 400000000 ''api.default.svc.cluster.local:443''
           (Inr \<lparr>writeErr = None, PeerCertificates = example_chain\<rparr>),
         EvWrite ping None,
         EvNow 1790000000000000001,
         EvGaugeSet [''default'', ''api'', ''443'', ''Example Issuing CA'', '''']
           (5368709119999999 / 536870912),
         EvNow 1790000000000000002,
         EvGaugeSet [''default'', ''api'', ''443'', ''Example Root CA'', ''7''] (- 90000000),
         EvNow 1790000000000000003,
         EvGaugeSet [''default'', ''api'', ''443'', ''Device CA'', ''42'']
           (4835703278458517 / 524288),
         EvClose]\<rparr>)"
  by (simp add: testTLS_def example_defs fullhostname_def Itoa_eval conn_Close_def
      label_eval seconds_eval Let_def)

lemma example_invalid_label:
  "testTLS example_cluster 400000000 ''old'' ''legacy'' 8443 example_state =
   Inl (InvalidLabelValue [CHR 0x43, CHR 0x41, CHR 0xE9],
     \<lparr>world = 1790000000000000003,
      expiredCertsGauge =
        [[''legacy'', ''old'', ''8443'', ''Example Issuing CA'', ''''] \<mapsto>
           5368709119999999 / 536870912],
      discoveredCertsGauge = 0, hearthbeatCounter = 0,
      trace =
        [EvDial 400000000 ''old.legacy.svc.cluster.local:8443''
           (Inr \<lparr>writeErr = None, PeerCertificates = [example_leaf, example_latin1]\<rparr>),
         EvWrite ping None,
         EvNow 1790000000000000001,
         EvGaugeSet [''legacy'', ''old'', ''8443'', ''Example Issuing CA'', '''']
           (5368709119999999 / 536870912),
         EvNow 1790000000000000002,
         EvClose]\<rparr>)"
  by (simp add: testTLS_def example_defs fullhostname_def Itoa_eval conn_Close_def
      label_eval seconds_eval Let_def)

lemma clockReadings_append: "clockReadings (xs @ ys) = clockReadings xs @ clockReadings ys"
  by (induction xs rule: clockReadings.induct) simp_all

lemma gaugeSets_certEvents:
  "gaugeSets (concat (map (certEvents ns svc port) cns)) = map (published ns svc port) cns"
  by (induction cns) (simp_all add: certEvents_def published_def)

lemma clockReadings_certEvents:
  "clockReadings (concat (map (certEvents ns svc port) cns)) = map snd cns"
  by (induction cns) (simp_all add: certEvents_def)







lemma testTLS_ok_sets:
  assumes "tls_DialWithDialer env t (fullhostname svc ns port) (world s) = (Inr c, w)"
    and "writeErr c = None"
    and "list_all (labelsValid ns svc port) (PeerCertificates c)"
  shows "\<exists>nows s' es. length nows = length (PeerCertificates c) \<and>
           testTLS env t svc ns port s = Inr (True, int (length (PeerCertificates c)), s') \<and>
           probe_effect s s' es \<and>
           clockReadings es = nows \<and>
           gaugeSets es = map (published ns svc port) (zip (PeerCertificates c) nows)"
proof -
  from testTLS_ok [OF assms] obtain nows s' where
    l: "length nows = length (PeerCertificates c)" and
    t: "testTLS env t svc ns port s = Inr (True, int (length (PeerCertificates c)), s')" and
    e: "probe_effect s s'
             ([EvDial t (fullhostname svc ns port) (Inr c), EvWrite ping None] @
              concat (map (certEvents ns svc port) (zip (PeerCertificates c) nows)) @
              [EvClose])" by blast
  let ?es = "[EvDial t (fullhostname svc ns port) (Inr c), EvWrite ping None] @
              concat (map (certEvents ns svc port) (zip (PeerCertificates c) nows)) @
              [EvClose]"
  have "clockReadings ?es = nows"
    using l by (simp add: clockReadings_append clockReadings_certEvents)
  moreover have "gaugeSets ?es = map (published ns svc port) (zip (PeerCertificates c) nows)"
    by (simp add: gaugeSets_append gaugeSets_certEvents)
  ultimately show ?thesis using l t e by blast
qed

lemma example_dial_api:
  "tls_DialWithDialer example_cluster 400000000 (fullhostname ''api'' ''default'' 443)
     (world example_state) =
     (Inr \<lparr>writeErr = None, PeerCertificates = example_chain\<rparr>, 1790000000000000001)"
  by (simp add: example_cluster_def example_env_def example_state_def example_dial_def
      fullhostname_def Itoa_eval)

lemma example_chain_valid: "list_all (labelsValid ''default'' ''api'' 443) example_chain"
  by (simp add: labelsValid_def example_chain_def example_leaf_def example_expired_def
      example_forever_def label_eval Itoa_eval)

section \<open>The claims about testTLS\<close>

text \<open>
  C1, as the program has it: when the handshake succeeds and the write of the payload
  fails, \<open>testTLS\<close> reports the probe as failed with zero certificates, sets no series
  of the gauge and closes the connection; the chain is not returned.
\<close>

theorem testTLS_write_failure:
  assumes "tls_DialWithDialer env tlsTimeout (fullhostname svc namespace port) (world s) = (Inr c, w)"
    and "writeErr c = Some err"
  shows "\<exists>s'. testTLS env tlsTimeout svc namespace port s = Inr (False, 0, s') \<and>
           expiredCertsGauge s' = expiredCertsGauge s \<and>
           trace s' = trace s @ [EvDial tlsTimeout (fullhostname svc namespace port) (Inr c),
                                 EvWrite ping (Some err), EvClose]"
  using testTLS_write_failed [OF assms] by simp

theorem testTLS_write_failure_witness:
  "tls_DialWithDialer example_cluster 400000000
     (fullhostname ''db'' ''default'' 5432) (world example_state) =
     (Inr \<lparr>writeErr = Some ''broken pipe'', PeerCertificates = [example_leaf]\<rparr>,
      1790000000000000001) \<and>
   writeErr \<lparr>writeErr = Some ''broken pipe'', PeerCertificates = [example_leaf]\<rparr> =
     Some ''broken pipe'' \<and>
   (\<exists>s'. testTLS example_cluster 400000000 ''db'' ''default'' 5432
            example_state = Inr (False, 0, s') \<and>
      expiredCertsGauge s' = expiredCertsGauge example_state \<and>
      trace s' = trace example_state @
        [EvDial 400000000 (fullhostname ''db'' ''default'' 5432)
           (Inr \<lparr>writeErr = Some ''broken pipe'', PeerCertificates = [example_leaf]\<rparr>),
         EvWrite ping (Some ''broken pipe''), EvClose])"
proof -
  have d: "tls_DialWithDialer example_cluster 400000000
     (fullhostname ''db'' ''default'' 5432) (world example_state) =
     (Inr \<lparr>writeErr = Some ''broken pipe'', PeerCertificates = [example_leaf]\<rparr>,
      1790000000000000001)"
    by (simp add: example_cluster_def example_env_def example_state_def example_dial_def fullhostname_def Itoa_eval)
  have w: "writeErr \<lparr>writeErr = Some ''broken pipe'', PeerCertificates = [example_leaf]\<rparr> =
     Some ''broken pipe''" by simp
  from testTLS_write_failure [OF d w] d w show ?thesis by blast
qed

text \<open>
  In the example cluster the handshake with \<^verbatim>\<open>db\<close> yields a chain of one certificate
  and the write fails: the probe returns \<open>(False, 0)\<close> and publishes nothing.
\<close>

theorem testTLS_write_failure_counterexample:
  "tls_DialWithDialer example_cluster 400000000
     (fullhostname ''db'' ''default'' 5432) (world example_state) =
     (Inr \<lparr>writeErr = Some ''broken pipe'', PeerCertificates = [example_leaf]\<rparr>,
      1790000000000000001) \<and>
   testTLS example_cluster 400000000 ''db'' ''default'' 5432 example_state =
     Inr (False, 0,
          testTLS_state (testTLS example_cluster 400000000 ''db'' ''default'' 5432
                           example_state)) \<and>
   gaugeSets (trace (testTLS_state (testTLS example_cluster 400000000 ''db'' ''default'' 5432
                                      example_state))) = []"
  by (simp add: testTLS_def testTLS_state_def example_cluster_def example_env_def
      example_state_def example_dial_def fullhostname_def Itoa_eval conn_Close_def)



text \<open>
  C10: the only address \<open>testTLS\<close> dials for service \<open>svc\<close> in \<open>namespace\<close> at \<open>port\<close> is
  \<^verbatim>\<open><svc>.<namespace>.svc.cluster.local:<port>\<close>, with the configured timeout.
\<close>

theorem testTLS_dials_cluster_local:
  "\<exists>res w es.
     tls_DialWithDialer env tlsTimeout
       (svc @ ''.'' @ namespace @ ''.svc.cluster.local:'' @ Itoa (sint port)) (world s) = (res, w) \<and>
     trace (testTLS_state (testTLS env tlsTimeout svc namespace port s)) =
       trace s @
       EvDial tlsTimeout (svc @ ''.'' @ namespace @ ''.svc.cluster.local:'' @ Itoa (sint port)) res # es \<and>
     dialedAddrs es = []"
proof -
  obtain res w where
    dial: "tls_DialWithDialer env tlsTimeout (fullhostname svc namespace port) (world s) = (res, w)"
    by (cases "tls_DialWithDialer env tlsTimeout (fullhostname svc namespace port) (world s)")
  from testTLS_run [OF dial] obtain es where
    e: "probe_effect s (testTLS_state (testTLS env tlsTimeout svc namespace port s))
          (EvDial tlsTimeout (fullhostname svc namespace port) res # es)"
    and d: "dialResults es = []" by blast
  have "dialedAddrs es = []" using d by (rule dialedAddrs_no_dial)
  with dial e show ?thesis
    by (auto simp: probe_effect_def fullhostname_def)
qed

theorem testTLS_dials_cluster_local_witness:
  "\<exists>res w es.
     tls_DialWithDialer example_cluster 400000000
       ''api.default.svc.cluster.local:443'' (world example_state) = (res, w) \<and>
     trace (testTLS_state (testTLS example_cluster 400000000
                        ''api'' ''default'' 443 example_state)) =
       trace example_state @ EvDial 400000000 ''api.default.svc.cluster.local:443'' res # es \<and>
     dialedAddrs es = []"
  using testTLS_dials_cluster_local
    [of example_cluster 400000000 "''api''" "''default''" 443 example_state]
  by (simp add: Itoa_eval)




section \<open>The claims about discoverServices\<close>












section \<open>The series of the labelled gauge\<close>

lemma example_dial_later:
  "tls_DialWithDialer example_cluster 400000000 (fullhostname ''api'' ''default'' 443)
     (world example_state_later) =
     (Inr \<lparr>writeErr = None, PeerCertificates = example_chain\<rparr>, 1790007200000000007)"
  by (simp add: example_cluster_def example_env_def example_state_later_def example_dial_def
      fullhostname_def Itoa_eval)

lemma example_later_gauge:
  "expiredCertsGauge example_state_later
     [''default'', ''api'', ''443'', ''Example Issuing CA'', ''''] =
   Some (5368709119999999 / 536870912)"
  by (simp add: example_state_later_def example_probe testTLS_state_def)

lemma example_later_probe:
  "\<exists>s'. testTLS example_cluster 400000000 ''api'' ''default'' 443 example_state_later = Inr (True, 3, s') \<and>
     trace s' =
     trace example_state_later @
     [EvDial 400000000 ''api.default.svc.cluster.local:443''
        (Inr \<lparr>writeErr = None, PeerCertificates = example_chain\<rparr>),
      EvWrite ping None,
      EvNow 1790007200000000007,
      EvGaugeSet [''default'', ''api'', ''443'', ''Example Issuing CA'', '''']
        (1341210912358399 / 134217728),
      EvNow 1790007200000000008,
      EvGaugeSet [''default'', ''api'', ''443'', ''Example Root CA'', ''7'']
        (- (6040280943820801 / 67108864)),
      EvNow 1790007200000000009,
      EvGaugeSet [''default'', ''api'', ''443'', ''Device CA'', ''42'']
        (4835703278458517 / 524288),
      EvClose]"
  by (simp add: example_state_later_def example_probe testTLS_state_def)
    (simp add: testTLS_def example_defs fullhostname_def Itoa_eval conn_Close_def
      label_eval seconds_eval Let_def)

text \<open>
  C4: the label values of a series are namespace, service, port in decimal, and the
  issuer's common name and serial number of the certificate; nothing else enters them.
  Two successful probes of the same (namespace, service, port), in whatever states, whose
  chains name the same issuers and have valid label values set the same keys in the same
  order. After a probe the gauge holds for every key the last value set by that probe,
  whatever it held before, and keeps what it held for every key the probe did not set.
\<close>

theorem gauge_keys_stable_values_overwritten:
  assumes "tls_DialWithDialer env tlsTimeout (fullhostname svc namespace port) (world s1) = (Inr c1, w1)"
    and "writeErr c1 = None"
    and "tls_DialWithDialer env tlsTimeout (fullhostname svc namespace port) (world s2) = (Inr c2, w2)"
    and "writeErr c2 = None"
    and "map Issuer_CommonName (PeerCertificates c1) = map Issuer_CommonName (PeerCertificates c2)"
    and "map Issuer_SerialNumber (PeerCertificates c1) =
           map Issuer_SerialNumber (PeerCertificates c2)"
    and "list_all (labelsValid namespace svc port) (PeerCertificates c1)"
    and "list_all (labelsValid namespace svc port) (PeerCertificates c2)"
  shows "\<exists>s1' s2' es1 es2.
           testTLS env tlsTimeout svc namespace port s1 =
             Inr (True, int (length (PeerCertificates c1)), s1') \<and>
           testTLS env tlsTimeout svc namespace port s2 =
             Inr (True, int (length (PeerCertificates c2)), s2') \<and>
           trace s1' = trace s1 @ es1 \<and>
           trace s2' = trace s2 @ es2 \<and>
           map fst (gaugeSets es1) = map fst (gaugeSets es2) \<and>
           map fst (gaugeSets es2) =
             map (\<lambda>cert. [namespace, svc, Itoa (sint port),
                           Issuer_CommonName cert, Issuer_SerialNumber cert])
               (PeerCertificates c2) \<and>
           (\<forall>k. expiredCertsGauge s2' k =
                  (case map_of (rev (gaugeSets es2)) k of
                     Some v \<Rightarrow> Some v
                   | None \<Rightarrow> expiredCertsGauge s2 k))"
proof -
  from testTLS_ok_sets [OF assms(1,2,7)] obtain nows1 s1' es1 where
    l1: "length nows1 = length (PeerCertificates c1)" and
    t1: "testTLS env tlsTimeout svc namespace port s1 =
           Inr (True, int (length (PeerCertificates c1)), s1')" and
    e1: "probe_effect s1 s1' es1" and
    g1: "gaugeSets es1 = map (published namespace svc port) (zip (PeerCertificates c1) nows1)"
    by blast
  from testTLS_ok_sets [OF assms(3,4,8)] obtain nows2 s2' es2 where
    l2: "length nows2 = length (PeerCertificates c2)" and
    t2: "testTLS env tlsTimeout svc namespace port s2 =
           Inr (True, int (length (PeerCertificates c2)), s2')" and
    e2: "probe_effect s2 s2' es2" and
    g2: "gaugeSets es2 = map (published namespace svc port) (zip (PeerCertificates c2) nows2)"
    by blast
  have k1: "map fst (gaugeSets es1) = map (labelValues namespace svc port) (PeerCertificates c1)"
  proof -
    have "map fst (gaugeSets es1) =
            map (labelValues namespace svc port) (map fst (zip (PeerCertificates c1) nows1))"
      by (simp add: g1 published_def comp_def)
    then show ?thesis using l1 by simp
  qed
  have k2: "map fst (gaugeSets es2) = map (labelValues namespace svc port) (PeerCertificates c2)"
  proof -
    have "map fst (gaugeSets es2) =
            map (labelValues namespace svc port) (map fst (zip (PeerCertificates c2) nows2))"
      by (simp add: g2 published_def comp_def)
    then show ?thesis using l2 by simp
  qed
  have lv: "map (labelValues namespace svc port) cs =
              map (\<lambda>i. [namespace, svc, Itoa (sint port), fst i, snd i])
                (zip (map Issuer_CommonName cs) (map Issuer_SerialNumber cs))" for cs
    by (induction cs) (simp_all add: labelValues_def)
  have same: "map fst (gaugeSets es1) = map fst (gaugeSets es2)"
    using assms(5,6) by (simp add: k1 k2 lv)
  have keys: "map fst (gaugeSets es2) =
             map (\<lambda>cert. [namespace, svc, Itoa (sint port),
                           Issuer_CommonName cert, Issuer_SerialNumber cert])
               (PeerCertificates c2)"
    by (simp add: k2 labelValues_def [abs_def])
  have over: "\<forall>k. expiredCertsGauge s2' k =
                  (case map_of (rev (gaugeSets es2)) k of
                     Some v \<Rightarrow> Some v
                   | None \<Rightarrow> expiredCertsGauge s2 k)"
    using e2 by (simp add: probe_effect_def map_add_def)
  from t1 t2 e1 e2 same keys over show ?thesis
    by (simp add: probe_effect_def)
qed

theorem gauge_keys_stable_values_overwritten_witness:
  "tls_DialWithDialer example_cluster 400000000 (fullhostname ''api'' ''default'' 443)
     (world example_state) =
     (Inr \<lparr>writeErr = None, PeerCertificates = example_chain\<rparr>, 1790000000000000001) \<and>
   tls_DialWithDialer example_cluster 400000000 (fullhostname ''api'' ''default'' 443)
     (world example_state_later) =
     (Inr \<lparr>writeErr = None, PeerCertificates = example_chain\<rparr>, 1790007200000000007) \<and>
   list_all (labelsValid ''default'' ''api'' 443) example_chain \<and>
   expiredCertsGauge example_state_later
     [''default'', ''api'', ''443'', ''Example Issuing CA'', ''''] =
     Some (5368709119999999 / 536870912) \<and>
   (\<exists>s1' s2' es1 es2.
      testTLS example_cluster 400000000 ''api'' ''default'' 443 example_state =
        Inr (True, 3, s1') \<and>
      testTLS example_cluster 400000000 ''api'' ''default'' 443 example_state_later =
        Inr (True, 3, s2') \<and>
      trace s1' = trace example_state @ es1 \<and>
      trace s2' = trace example_state_later @ es2 \<and>
      map fst (gaugeSets es1) = map fst (gaugeSets es2) \<and>
      map fst (gaugeSets es2) =
        [[''default'', ''api'', ''443'', ''Example Issuing CA'', ''''],
         [''default'', ''api'', ''443'', ''Example Root CA'', ''7''],
         [''default'', ''api'', ''443'', ''Device CA'', ''42'']] \<and>
      expiredCertsGauge s2' [''default'', ''api'', ''443'', ''Example Issuing CA'', ''''] =
        Some (1341210912358399 / 134217728))"
proof -
  let ?c = "\<lparr>writeErr = None, PeerCertificates = example_chain\<rparr>"
  have w: "writeErr ?c = None" by simp
  have v: "list_all (labelsValid ''default'' ''api'' 443) (PeerCertificates ?c)"
    using example_chain_valid by simp
  have n: "int (length (PeerCertificates ?c)) = 3" by (simp add: example_chain_def)
  from gauge_keys_stable_values_overwritten
    [OF example_dial_api w example_dial_later w refl refl v v]
  obtain s1' s2' es1 es2 where
    a: "testTLS example_cluster 400000000 ''api'' ''default'' 443 example_state =
          Inr (True, 3, s1')"
    and b: "testTLS example_cluster 400000000 ''api'' ''default'' 443 example_state_later =
          Inr (True, 3, s2')"
    and c: "trace s1' = trace example_state @ es1"
    and d: "trace s2' = trace example_state_later @ es2"
    and e: "map fst (gaugeSets es1) = map fst (gaugeSets es2)"
    and g: "\<forall>k. expiredCertsGauge s2' k =
                  (case map_of (rev (gaugeSets es2)) k of
                     Some v \<Rightarrow> Some v
                   | None \<Rightarrow> expiredCertsGauge example_state_later k)"
    unfolding n by blast
  from example_later_probe b d have es2:
    "es2 = [EvDial 400000000 ''api.default.svc.cluster.local:443'' (Inr ?c),
      EvWrite ping None,
      EvNow 1790007200000000007,
      EvGaugeSet [''default'', ''api'', ''443'', ''Example Issuing CA'', '''']
        (1341210912358399 / 134217728),
      EvNow 1790007200000000008,
      EvGaugeSet [''default'', ''api'', ''443'', ''Example Root CA'', ''7'']
        (- (6040280943820801 / 67108864)),
      EvNow 1790007200000000009,
      EvGaugeSet [''default'', ''api'', ''443'', ''Device CA'', ''42'']
        (4835703278458517 / 524288),
      EvClose]"
    by auto
  have f': "map fst (gaugeSets es2) =
        [[''default'', ''api'', ''443'', ''Example Issuing CA'', ''''],
         [''default'', ''api'', ''443'', ''Example Root CA'', ''7''],
         [''default'', ''api'', ''443'', ''Device CA'', ''42'']]"
    by (simp add: es2)
  have g': "expiredCertsGauge s2' [''default'', ''api'', ''443'', ''Example Issuing CA'', ''''] =
        Some (1341210912358399 / 134217728)"
    using g by (simp add: es2)
  show ?thesis
  proof (intro conjI exI)
    show "testTLS example_cluster 400000000 ''api'' ''default'' 443 example_state =
            Inr (True, 3, s1')" by (rule a)
    show "testTLS example_cluster 400000000 ''api'' ''default'' 443 example_state_later =
            Inr (True, 3, s2')" by (rule b)
  qed (rule example_dial_api example_dial_later example_chain_valid example_later_gauge
        c d e f' g')+
qed

section \<open>Panics of discoverServices\<close>

lemma scanLoop_add:
  "scanLoop env cs f t p r (k + m) s0 =
     (case scanLoop env cs f t p r k s0 of
        Inl e \<Rightarrow> Inl e
      | Inr s \<Rightarrow> scanLoop env cs f t p r m s)"
  by (induction k arbitrary: s0) (simp_all split: sum.splits)

lemma scanLoop_panic:
  "scanLoop env cs f t p r n s = Inl (q, s') \<Longrightarrow>
   (\<exists>msg pre. q = PanicMessage msg \<and> trace s' = pre @ [EvList (Inl msg)]) \<or> labelPanic q"
proof (induction n arbitrary: s)
  case 0
  then show ?case by simp
next
  case (Suc n)
  show ?case
  proof (cases "scanCycle env cs f t p r s")
    case (Inl e)
    with Suc.prems have "scanCycle env cs f t p r s = Inl (q, s')" by simp
    from scanCycle_panic [OF this] show ?thesis by auto
  next
    case (Inr s1)
    with Suc.prems have "scanLoop env cs f t p r n s1 = Inl (q, s')" by simp
    then show ?thesis by (rule Suc.IH)
  qed
qed

lemma discoverServices_compile_failed:
  assumes "skipNamespaceRegex \<noteq> []" and "regexp_Compile env skipNamespaceRegex = Inl e"
  shows "\<exists>msg. discoverServices env f t skipNamespaceRegex cycles s =
                  Inl (PanicMessage msg, s\<lparr>world := snd (rest_InClusterConfig env (world s))\<rparr>) \<and>
           (\<forall>config clientset.
              fst (rest_InClusterConfig env (world s)) = Inr config \<and>
              kubernetes_NewForConfig env config = Inr clientset \<longrightarrow> msg = e)"
  using assms
  by (auto simp: discoverServices_def split_beta Let_def split: sum.splits prod.splits)

lemma discoverServices_empty_pattern:
  assumes "rest_InClusterConfig env (world s) = (Inr config, w)"
    and "kubernetes_NewForConfig env config = Inr clientset"
  shows "\<exists>r. discoverServices env f t [] cycles s =
                scanLoop env clientset f t [] r cycles (s\<lparr>world := w\<rparr>)"
  using assms
  by (auto simp: discoverServices_def split_beta Let_def split: sum.splits prod.splits)

lemma discoverServices_compiled:
  assumes "rest_InClusterConfig env (world s) = (Inr config, w)"
    and "kubernetes_NewForConfig env config = Inr clientset"
    and "regexp_Compile env skipNamespaceRegex = Inr re"
  shows "discoverServices env f t skipNamespaceRegex cycles s =
           scanLoop env clientset f t skipNamespaceRegex (Some re) cycles (s\<lparr>world := w\<rparr>)"
  using assms
  by (auto simp: discoverServices_def split_beta Let_def split: sum.splits prod.splits)

lemma certLoop_no_compile:
  "certLoop (env\<lparr>regexp_Compile := f\<rparr>) ns svc port cs ds = certLoop env ns svc port cs ds"
  by (induction env ns svc port cs ds rule: certLoop.induct)
    (simp_all add: Let_def split_beta split: sum.splits)

lemma testTLS_no_compile:
  "testTLS (env\<lparr>regexp_Compile := f\<rparr>) t svc ns port s = testTLS env t svc ns port s"
  by (simp add: testTLS_def certLoop_no_compile Let_def split_beta
      split: sum.splits option.splits)

lemma portLoop_no_compile:
  "portLoop (env\<lparr>regexp_Compile := f\<rparr>) t svc ns ports ds = portLoop env t svc ns ports ds"
  by (induction env t svc ns ports ds rule: portLoop.induct)
    (simp_all add: testTLS_no_compile split: sum.splits)

lemma shouldSkip_no_compile:
  "shouldSkip (env\<lparr>regexp_Compile := f\<rparr>) p r ns = shouldSkip env p r ns"
  by (simp add: shouldSkip_def split: option.splits)

lemma svcLoop_no_compile:
  "svcLoop (env\<lparr>regexp_Compile := f\<rparr>) t p r items ds = svcLoop env t p r items ds"
proof (induction items arbitrary: ds)
  case Nil
  then show ?case by (cases ds) simp
next
  case (Cons svc items)
  then show ?case
    by (cases ds)
      (simp add: portLoop_no_compile shouldSkip_no_compile Let_def split: sum.splits)
qed

lemma scanCycle_no_compile:
  "scanCycle (env\<lparr>regexp_Compile := f\<rparr>) cs d t p r s = scanCycle env cs d t p r s"
  by (simp add: scanCycle_def svcLoop_no_compile Let_def split_beta split: sum.splits)

lemma scanLoop_no_compile:
  "scanLoop (env\<lparr>regexp_Compile := f\<rparr>) cs d t p r n s = scanLoop env cs d t p r n s"
  by (induction n arbitrary: s) (simp_all add: scanCycle_no_compile split: sum.splits)

lemma example_outage_first_cycle:
  "scanCycle example_outage () 7200000000000 400000000 [] None example_state =
   Inr \<lparr>world = 1790007200000000007,
        expiredCertsGauge =
          [[''default'', ''api'', ''443'', ''Example Issuing CA'', ''''] \<mapsto>
             5368709119999999 / 536870912,
           [''default'', ''api'', ''443'', ''Example Root CA'', ''7''] \<mapsto> - 90000000,
           [''default'', ''api'', ''443'', ''Device CA'', ''42''] \<mapsto>
             4835703278458517 / 524288],
        discoveredCertsGauge = 3, hearthbeatCounter = 1,
        trace =
          [EvList (Inr example_services),
           EvDial 400000000 ''api.default.svc.cluster.local:443''
             (Inr \<lparr>writeErr = None, PeerCertificates = example_chain\<rparr>),
           EvWrite ping None,
           EvNow 1790000000000000001,
           EvGaugeSet [''default'', ''api'', ''443'', ''Example Issuing CA'', '''']
             (5368709119999999 / 536870912),
           EvNow 1790000000000000002,
           EvGaugeSet [''default'', ''api'', ''443'', ''Example Root CA'', ''7''] (- 90000000),
           EvNow 1790000000000000003,
           EvGaugeSet [''default'', ''api'', ''443'', ''Device CA'', ''42'']
             (4835703278458517 / 524288),
           EvClose,
           EvDial 400000000 ''api.default.svc.cluster.local:80'' (Inl ''connection refused''),
           EvDial 400000000 ''dns.kube-system.svc.cluster.local:53''
             (Inl ''connection refused''),
           EvDial 400000000 ''db.default.svc.cluster.local:5432''
             (Inr \<lparr>writeErr = Some ''broken pipe'', PeerCertificates = [example_leaf]\<rparr>),
           EvWrite ping (Some ''broken pipe''),
           EvClose,
           EvDiscoveredSet 3, EvHeartbeatInc, EvSleep 7200000000000]\<rparr>"
  by (simp add: scanCycle_def shouldSkip_def testTLS_def example_defs
      fullhostname_def Itoa_eval conn_Close_def label_eval seconds_eval Let_def)

text \<open>
  C7: when the listing at the start of a scan cycle fails, after any number \<open>k\<close> of
  completed cycles, the cycle panics with the error of the listing, and so does the
  loop, however many more passes it is given. The state of the panic is the state at
  the start of the cycle with the failed listing as its only further call: the listing
  is not tried again, nothing is probed and no collector is touched.
\<close>

theorem listing_failure_is_fatal:
  assumes "scanLoop env clientset discoverFrequency tlsTimeout skipNamespaceRegex r k s0 = Inr s"
    and "services_List env clientset (world s) = (Inl err, w)"
  shows "scanCycle env clientset discoverFrequency tlsTimeout skipNamespaceRegex r s =
           Inl (PanicMessage err, s\<lparr>world := w, trace := trace s @ [EvList (Inl err)]\<rparr>) \<and>
         scanLoop env clientset discoverFrequency tlsTimeout skipNamespaceRegex r
           (k + Suc n) s0 =
           Inl (PanicMessage err, s\<lparr>world := w, trace := trace s @ [EvList (Inl err)]\<rparr>)"
proof -
  let ?p = "Inl (PanicMessage err, s\<lparr>world := w, trace := trace s @ [EvList (Inl err)]\<rparr>)"
  have c: "scanCycle env clientset discoverFrequency tlsTimeout skipNamespaceRegex r s = ?p"
    using assms(2) by (rule scanCycle_failed)
  have "scanLoop env clientset discoverFrequency tlsTimeout skipNamespaceRegex r (k + Suc n) s0 =
          scanLoop env clientset discoverFrequency tlsTimeout skipNamespaceRegex r (Suc n) s"
    by (simp only: scanLoop_add assms(1) sum.case)
  also have "\<dots> = ?p" by (simp add: c)
  finally show ?thesis using c by simp
qed

theorem listing_failure_is_fatal_witness:
  "\<exists>s. scanLoop example_outage () 7200000000000 400000000 [] None 1 example_state = Inr s \<and>
       services_List example_outage () (world s) = (Inl ''forbidden'', world s) \<and>
       hearthbeatCounter s = 1 \<and>
       scanLoop example_outage () 7200000000000 400000000 [] None (1 + Suc 5) example_state =
         Inl (PanicMessage ''forbidden'',
              s\<lparr>world := world s, trace := trace s @ [EvList (Inl ''forbidden'')]\<rparr>)"
proof -
  obtain s where
    s: "scanLoop example_outage () 7200000000000 400000000 [] None 1 example_state = Inr s"
    and w: "world s = 1790007200000000007" and h: "hearthbeatCounter s = 1"
    by (simp add: example_outage_first_cycle)
  have l: "services_List example_outage () (world s) = (Inl ''forbidden'', world s)"
    by (simp add: w example_outage_def example_env_def)
  from listing_failure_is_fatal [OF s l, of 5] s l h show ?thesis by blast
qed

text \<open>
  C8: with a pattern that is not empty and does not compile, \<open>discoverServices\<close> panics
  before the loop is entered, for every number of passes: no call has been made, and the
  message is the error of the compiler once the cluster configuration and the client set
  are there (their own failures panic first). With the empty pattern it enters the loop
  whatever the compiler answered. The loop never compiles: a panic of the loop carries
  the error of a failed listing, or is a panic of \<^verbatim>\<open>WithLabelValues\<close>, and what the loop
  does is the same whatever compiler it is run with.
\<close>

theorem bad_pattern_is_fatal_at_start:
  assumes "skipNamespaceRegex \<noteq> []" and "regexp_Compile env skipNamespaceRegex = Inl e"
  shows "(\<exists>msg s'. discoverServices env discoverFrequency tlsTimeout skipNamespaceRegex cycles s =
                     Inl (PanicMessage msg, s') \<and>
            trace s' = trace s \<and>
            (\<forall>config clientset.
               fst (rest_InClusterConfig env (world s)) = Inr config \<and>
               kubernetes_NewForConfig env config = Inr clientset \<longrightarrow> msg = e)) \<and>
         (\<forall>config w clientset.
            rest_InClusterConfig env (world s) = (Inr config, w) \<and>
            kubernetes_NewForConfig env config = Inr clientset \<longrightarrow>
            (\<exists>r. discoverServices env discoverFrequency tlsTimeout [] cycles s =
                    scanLoop env clientset discoverFrequency tlsTimeout [] r cycles
                      (s\<lparr>world := w\<rparr>))) \<and>
         (\<forall>clientset p r n s1 q s'.
            scanLoop env clientset discoverFrequency tlsTimeout p r n s1 = Inl (q, s') \<longrightarrow>
            (\<exists>msg pre. q = PanicMessage msg \<and> trace s' = pre @ [EvList (Inl msg)]) \<or>
            labelPanic q) \<and>
         (\<forall>f clientset p r n s1.
            scanLoop (env\<lparr>regexp_Compile := f\<rparr>) clientset discoverFrequency tlsTimeout p r n s1 =
            scanLoop env clientset discoverFrequency tlsTimeout p r n s1)"
proof (intro conjI allI impI)
  from discoverServices_compile_failed [OF assms, of discoverFrequency tlsTimeout cycles s]
  show "\<exists>msg s'. discoverServices env discoverFrequency tlsTimeout skipNamespaceRegex cycles s =
                     Inl (PanicMessage msg, s') \<and>
            trace s' = trace s \<and>
            (\<forall>config clientset.
               fst (rest_InClusterConfig env (world s)) = Inr config \<and>
               kubernetes_NewForConfig env config = Inr clientset \<longrightarrow> msg = e)"
    by auto
next
  fix config w clientset
  assume "rest_InClusterConfig env (world s) = (Inr config, w) \<and>
            kubernetes_NewForConfig env config = Inr clientset"
  then show "\<exists>r. discoverServices env discoverFrequency tlsTimeout [] cycles s =
                    scanLoop env clientset discoverFrequency tlsTimeout [] r cycles
                      (s\<lparr>world := w\<rparr>)"
    by (elim conjE) (rule discoverServices_empty_pattern)
next
  fix clientset p r n s1 q s'
  assume "scanLoop env clientset discoverFrequency tlsTimeout p r n s1 = Inl (q, s')"
  then show "(\<exists>msg pre. q = PanicMessage msg \<and> trace s' = pre @ [EvList (Inl msg)]) \<or>
            labelPanic q" by (rule scanLoop_panic)
next
  fix f clientset p r n s1
  show "scanLoop (env\<lparr>regexp_Compile := f\<rparr>) clientset discoverFrequency tlsTimeout p r n s1 =
          scanLoop env clientset discoverFrequency tlsTimeout p r n s1"
    by (rule scanLoop_no_compile)
qed

theorem bad_pattern_is_fatal_at_start_witness:
  "''kube-('' \<noteq> [] \<and>
   regexp_Compile example_cluster ''kube-('' = Inl ''error parsing regexp'' \<and>
   discoverServices example_cluster 7200000000000 400000000 ''kube-('' 3 example_state =
     Inl (PanicMessage ''error parsing regexp'', example_state) \<and>
   (\<exists>s'. discoverServices example_cluster 7200000000000 400000000 [] 1 example_state = Inr s' \<and>
      hearthbeatCounter s' = 1)"
proof -
  have n: "''kube-('' \<noteq> []" by simp
  have c: "regexp_Compile example_cluster ''kube-('' = Inl ''error parsing regexp''"
    by (simp add: example_cluster_def example_env_def re_parse_item_def re_special_def)
  have cfg: "fst (rest_InClusterConfig example_cluster (world example_state)) = Inr () \<and>
      kubernetes_NewForConfig example_cluster () = Inr ()"
    by (simp add: example_cluster_def example_env_def)
  note th = bad_pattern_is_fatal_at_start [OF n c, of 7200000000000 400000000 _ example_state]
  from th [of 3, THEN conjunct1] cfg have
    "\<exists>s'. discoverServices example_cluster 7200000000000 400000000 ''kube-('' 3 example_state =
       Inl (PanicMessage ''error parsing regexp'', s') \<and> trace s' = trace example_state"
    by blast
  moreover have "discoverServices example_cluster 7200000000000 400000000 ''kube-('' 3
      example_state = Inl (PanicMessage ''error parsing regexp'', example_state)"
    by (simp add: discoverServices_def example_cluster_def example_env_def example_state_def
        re_parse_item_def re_special_def)
  moreover have "\<exists>s'. discoverServices example_cluster 7200000000000 400000000 [] 1
      example_state = Inr s' \<and> hearthbeatCounter s' = 1"
    by (simp add: discoverServices_def scanCycle_def shouldSkip_def testTLS_def example_defs
        fullhostname_def Itoa_eval conn_Close_def label_eval seconds_eval Let_def)
  ultimately show ?thesis using n c by blast
qed

section \<open>The namespace filter\<close>

lemma re_search_iff:
  "re_search is b t \<longleftrightarrow> (\<exists>pre post. t = pre @ post \<and> re_match_here is (b \<and> pre = []) post)"
proof (induction t arbitrary: b)
  case Nil
  then show ?case by simp
next
  case (Cons x t)
  have "(\<exists>pre post. x # t = pre @ post \<and> re_match_here is (b \<and> pre = []) post) \<longleftrightarrow>
        re_match_here is b (x # t) \<or> (\<exists>pre post. t = pre @ post \<and> re_match_here is False post)"
    (is "?L \<longleftrightarrow> ?R")
  proof
    assume ?L
    then obtain pre post where p: "x # t = pre @ post" and m: "re_match_here is (b \<and> pre = []) post"
      by blast
    show ?R
    proof (cases pre)
      case Nil
      with p m show ?thesis by simp
    next
      case (Cons y pre')
      with p m have "t = pre' @ post" "re_match_here is False post" by simp_all
      then show ?thesis by blast
    qed
  next
    assume ?R
    then show ?L
    proof
      assume "re_match_here is b (x # t)"
      then have "x # t = [] @ (x # t) \<and> re_match_here is (b \<and> [] = []) (x # t)" by simp
      then show ?L by blast
    next
      assume "\<exists>pre post. t = pre @ post \<and> re_match_here is False post"
      then obtain pre post where "t = pre @ post" "re_match_here is False post" by blast
      then have "x # t = (x # pre) @ post \<and> re_match_here is (b \<and> x # pre = []) post" by simp
      then show ?L by blast
    qed
  qed
  with Cons.IH [of False] show ?case by simp
qed

lemma re_Match_iff:
  "re_Match is t \<longleftrightarrow> (\<exists>pre post. t = pre @ post \<and> re_match_here is (pre = []) post)"
  by (simp add: re_Match_def re_search_iff)

lemma example_env_conforms: "regexp_conforms (example_env listing)"
  by (simp add: regexp_conforms_def example_env_def)

lemma re_parse_kube:
  "re_parse ''^kube-'' =
     Some [BeginText, Literal CHR ''k'', Literal CHR ''u'', Literal CHR ''b'',
           Literal CHR ''e'', Literal CHR ''-'']"
  by (simp add: re_parse_item_def re_special_def)

text \<open>
  C3: the test of the loop is false for the empty pattern, whatever the namespace, and
  for any other pattern it is the answer of \<^verbatim>\<open>Match\<close> of the compiled pattern. Where the
  regexp library behaves as written out above, that answer is: the pattern matches
  somewhere in the namespace; \<^verbatim>\<open>^kube-\<close> skips \<^verbatim>\<open>kube-system\<close> and does not skip
  \<^verbatim>\<open>payments\<close>.
\<close>

theorem shouldSkip_contract:
  "\<not> shouldSkip env [] r ns \<and>
   (pattern \<noteq> [] \<longrightarrow> shouldSkip env pattern (Some re) ns = regexp_Match env re ns) \<and>
   (regexp_conforms env \<and> pattern \<noteq> [] \<and> re_parse pattern = Some is \<longrightarrow>
      (\<exists>re. regexp_Compile env pattern = Inr re \<and>
         shouldSkip env pattern (Some re) ns =
           (\<exists>pre post. ns = pre @ post \<and> re_match_here is (pre = []) post))) \<and>
   (regexp_conforms env \<longrightarrow>
      (\<exists>re. regexp_Compile env ''^kube-'' = Inr re \<and>
         shouldSkip env ''^kube-'' (Some re) ''kube-system'' \<and>
         \<not> shouldSkip env ''^kube-'' (Some re) ''payments''))"
proof (intro conjI impI)
  show "\<not> shouldSkip env [] r ns" by (simp add: shouldSkip_def)
next
  assume "pattern \<noteq> []"
  then show "shouldSkip env pattern (Some re) ns = regexp_Match env re ns"
    by (simp add: shouldSkip_def)
next
  assume a: "regexp_conforms env \<and> pattern \<noteq> [] \<and> re_parse pattern = Some is"
  then obtain re where c: "regexp_Compile env pattern = Inr re"
    and m: "\<forall>t. regexp_Match env re t = re_Match is t"
    unfolding regexp_conforms_def by blast
  have "shouldSkip env pattern (Some re) ns =
          (\<exists>pre post. ns = pre @ post \<and> re_match_here is (pre = []) post)"
    using a m by (simp add: shouldSkip_def re_Match_iff)
  with c show "\<exists>re. regexp_Compile env pattern = Inr re \<and>
         shouldSkip env pattern (Some re) ns =
           (\<exists>pre post. ns = pre @ post \<and> re_match_here is (pre = []) post)" by blast
next
  assume "regexp_conforms env"
  with re_parse_kube obtain re where c: "regexp_Compile env ''^kube-'' = Inr re"
    and m: "\<forall>t. regexp_Match env re t =
              re_Match [BeginText, Literal CHR ''k'', Literal CHR ''u'', Literal CHR ''b'',
                        Literal CHR ''e'', Literal CHR ''-''] t"
    unfolding regexp_conforms_def by blast
  have "shouldSkip env ''^kube-'' (Some re) ''kube-system''"
    by (simp add: shouldSkip_def m re_Match_def)
  moreover have "\<not> shouldSkip env ''^kube-'' (Some re) ''payments''"
    by (simp add: shouldSkip_def m re_Match_def)
  ultimately show "\<exists>re. regexp_Compile env ''^kube-'' = Inr re \<and>
         shouldSkip env ''^kube-'' (Some re) ''kube-system'' \<and>
         \<not> shouldSkip env ''^kube-'' (Some re) ''payments''"
    using c by blast
qed

theorem shouldSkip_contract_witness:
  "regexp_conforms example_cluster \<and>
   ''^kube-'' \<noteq> [] \<and>
   re_parse ''^kube-'' =
     Some [BeginText, Literal CHR ''k'', Literal CHR ''u'', Literal CHR ''b'',
           Literal CHR ''e'', Literal CHR ''-''] \<and>
   \<not> shouldSkip example_cluster [] None ''kube-system'' \<and>
   (\<exists>re. regexp_Compile example_cluster ''^kube-'' = Inr re \<and>
      shouldSkip example_cluster ''^kube-'' (Some re) ''kube-system'' \<and>
      \<not> shouldSkip example_cluster ''^kube-'' (Some re) ''payments'')"
proof -
  have c: "regexp_conforms example_cluster"
    unfolding example_cluster_def by (rule example_env_conforms)
  have n: "''^kube-'' \<noteq> []" by simp
  from shouldSkip_contract [of example_cluster None "''kube-system''"] c n re_parse_kube
  show ?thesis by blast
qed

end
